theory Spec2Isabelle
  imports Complex_Main
begin

section \<open>Total-variation denoising (\<open>tv_denoising.py\<close>): arrays\<close>

text \<open>
  A NumPy array is a shape together with its elements in row-major (C) order.  All arrays
  the functions below build (\<open>np.zeros\<close>, results of arithmetic, \<open>astype\<close>) are of this
  kind.  The element type is a parameter where the source keeps the dtype of its input
  (\<open>gradient\<close>), and \<open>real\<close> where the source computes in floating point: the
  arithmetic is that of the real numbers, without rounding.  \<open>valid_array\<close> says that the
  buffer has as many elements as the shape asks for.
\<close>

record 'a ndarray =
  shape :: "nat list"
  data :: "'a list"

definition ndim :: "'a ndarray \<Rightarrow> nat" where
  "ndim a = length (shape a)"

definition valid_array :: "'a ndarray \<Rightarrow> bool" where
  "valid_array a = (length (data a) = prod_list (shape a))"

text \<open>The exceptions the functions can raise.\<close>

datatype py_error =
    ValueError string
  | IndexError
  | TypeError
  | ZeroDivisionError
  | UnboundLocalError

section \<open>The projection on the dual ball\<close>

text \<open>
  \<open>_projector_on_dual(grad)\<close>: \<open>norm = np.maximum(np.sqrt(np.sum(grad ** 2, 0)), 1.)\<close> is
  an array over the grid points (shape \<open>grad.shape[1:]\<close>), and each component
  \<open>grad_comp\<close> of \<open>grad\<close> is divided by it in place.  Component \<open>c\<close> of an array of
  shape \<open>k # s\<close> is the block of \<open>prod_list s\<close> elements starting at \<open>c * prod_list s\<close>.
  Iterating over a 0-d array raises \<open>TypeError\<close>; iterating over a 1-d array yields
  scalars, so \<open>grad_comp /= norm\<close> rebinds the loop variable and leaves \<open>grad\<close> as it is.
  The function is \<open>projector_on_dual\<close> here, without the leading underscore.
\<close>

definition point_norm :: "real ndarray \<Rightarrow> nat \<Rightarrow> real" where
  "point_norm grad p =
     (let N = prod_list (tl (shape grad))
      in sqrt (sum_list (map (\<lambda>c. (data grad ! (c * N + p))\<^sup>2) [0..<hd (shape grad)])))"

definition projector_on_dual :: "real ndarray \<Rightarrow> py_error + real ndarray" where
  "projector_on_dual grad =
     (case shape grad of
        [] \<Rightarrow> Inl TypeError
      | [k] \<Rightarrow> Inr grad
      | k # s \<Rightarrow>
          (let N = prod_list s;
               norm = map (\<lambda>p. max (point_norm grad p) 1) [0..<N]
           in Inr (grad\<lparr>data :=
                 concat (map (\<lambda>c. map (\<lambda>p. data grad ! (c * N + p) / norm ! p) [0..<N])
                   [0..<k])\<rparr>)))"

definition grid_size :: "'a ndarray \<Rightarrow> nat" where
  "grid_size g = prod_list (tl (shape g))"

section \<open>Positions along an axis\<close>

text \<open>
  In an array of shape \<open>s\<close> stored in row-major order, stepping the index along axis \<open>d\<close>
  by one moves \<open>stride s d\<close> places in the buffer, and the element at place \<open>p\<close> has index
  \<open>axis_index s d p\<close> along axis \<open>d\<close>.  \<open>flat_index\<close> is the place of a multi-index.
\<close>

definition stride :: "nat list \<Rightarrow> nat \<Rightarrow> nat" where
  "stride s d = prod_list (drop (Suc d) s)"

definition axis_index :: "nat list \<Rightarrow> nat \<Rightarrow> nat \<Rightarrow> nat" where
  "axis_index s d p = (p div stride s d) mod (s ! d)"

fun flat_index :: "nat list \<Rightarrow> nat list \<Rightarrow> nat" where
  "flat_index (n # s) (i # idx) = i * prod_list s + flat_index s idx"
| "flat_index _ _ = 0"

definition valid_index :: "nat list \<Rightarrow> nat list \<Rightarrow> bool" where
  "valid_index s idx = (length idx = length s \<and> list_all2 (\<lambda>i n. i < n) idx s)"

definition elem_at :: "'a ndarray \<Rightarrow> nat list \<Rightarrow> 'a" where
  "elem_at a idx = data a ! flat_index (shape a) idx"

section \<open>Elementwise operations\<close>

text \<open>
  \<open>np.zeros\<close>, and the arithmetic of arrays element by element.  The binary operations
  are used on arrays of equal shape only (the solver never broadcasts one array against
  another); the result takes the shape of the first operand.
\<close>

definition zeros :: "nat list \<Rightarrow> 'a::zero ndarray" where
  "zeros s = \<lparr>shape = s, data = replicate (prod_list s) 0\<rparr>"

definition nd_map :: "('a \<Rightarrow> 'b) \<Rightarrow> 'a ndarray \<Rightarrow> 'b ndarray" where
  "nd_map f a = \<lparr>shape = shape a, data = map f (data a)\<rparr>"

definition nd_map2 :: "('a \<Rightarrow> 'b \<Rightarrow> 'c) \<Rightarrow> 'a ndarray \<Rightarrow> 'b ndarray \<Rightarrow> 'c ndarray" where
  "nd_map2 f a b = \<lparr>shape = shape a, data = map2 f (data a) (data b)\<rparr>"

definition nd_neg :: "real ndarray \<Rightarrow> real ndarray" where
  "nd_neg a = nd_map uminus a"

definition nd_scale :: "real \<Rightarrow> real ndarray \<Rightarrow> real ndarray" where
  "nd_scale c a = nd_map (\<lambda>x. c * x) a"

definition nd_add :: "real ndarray \<Rightarrow> real ndarray \<Rightarrow> real ndarray" where
  "nd_add a b = nd_map2 (+) a b"

definition nd_sub :: "real ndarray \<Rightarrow> real ndarray \<Rightarrow> real ndarray" where
  "nd_sub a b = nd_map2 (-) a b"

definition nd_mul :: "real ndarray \<Rightarrow> real ndarray \<Rightarrow> real ndarray" where
  "nd_mul a b = nd_map2 (*) a b"

definition nd_sum :: "real ndarray \<Rightarrow> real" where
  "nd_sum a = sum_list (data a)"

definition sq_norm :: "real ndarray \<Rightarrow> real" where
  "sq_norm a = nd_sum (nd_map (\<lambda>x. x\<^sup>2) a)"

section \<open>The gradient\<close>

text \<open>
  \<open>gradient(img)\<close> starts from \<open>np.zeros([img.ndim] + list(img.shape), dtype=img.dtype)\<close>
  and, for each axis \<open>d\<close>, runs \<open>gradient[slice_all] = np.diff(img, axis=d)\<close>, where
  \<open>slice_all\<close> is \<open>[d, :, ..., :, :-1]\<close> with the \<open>:-1\<close> at axis \<open>d\<close> of the image: in
  component \<open>d\<close>, every place whose index along axis \<open>d\<close> is not the last receives the
  element one step further along axis \<open>d\<close> minus the element itself.
\<close>

definition assign_diff :: "'a::minus ndarray \<Rightarrow> nat \<Rightarrow> 'a ndarray \<Rightarrow> 'a ndarray" where
  "assign_diff img d g =
     (let s = shape img; N = prod_list s
      in g\<lparr>data :=
           map (\<lambda>q. if d * N \<le> q \<and> q < Suc d * N \<and> axis_index s d (q - d * N) < s ! d - 1
                     then data img ! (q - d * N + stride s d) - data img ! (q - d * N)
                     else data g ! q)
             [0..<length (data g)]\<rparr>)"

definition gradient :: "'a::{zero,minus} ndarray \<Rightarrow> 'a ndarray" where
  "gradient img =
     foldl (\<lambda>g d. assign_diff img d g) (zeros (ndim img # shape img)) [0..<ndim img]"

section \<open>The divergence\<close>

text \<open>
  \<open>div(grad)\<close>: \<open>res\<close> starts as zeros of shape \<open>grad.shape[1:]\<close>; for each \<open>d\<close> in
  \<open>range(grad.shape[0])\<close> the views \<open>this_grad = np.rollaxis(grad[d], d)\<close> and
  \<open>this_res = np.rollaxis(res, d)\<close> put axis \<open>d\<close> first, and three statements update
  \<open>res\<close> through the view:
  \<^item> \<open>this_res[:-1] += this_grad[:-1]\<close>,
  \<^item> \<open>this_res[1:-1] -= this_grad[:-2]\<close>,
  \<^item> \<open>this_res[-1] -= this_grad[-2]\<close>, an \<open>IndexError\<close> when axis \<open>d\<close> has fewer than two
    entries.
  \<open>np.rollaxis\<close> raises \<open>ValueError\<close> when \<open>grad[d]\<close> has no axis \<open>d\<close>, and
  \<open>grad.shape[0]\<close> raises \<open>IndexError\<close> on a 0-d array.  The function is \<open>div_nd\<close>
  here, since \<open>div\<close> is the division of HOL.
\<close>

definition div_axis :: "real ndarray \<Rightarrow> nat \<Rightarrow> real list \<Rightarrow> py_error + real list" where
  "div_axis grad d res =
     (let s = tl (shape grad); N = prod_list s
      in if length s \<le> d then Inl (ValueError ''rollaxis: axis out of range'')
         else
           let n = s ! d; st = stride s d;
               this_grad = (\<lambda>p. data grad ! (d * N + p));
               res1 = map (\<lambda>p. if axis_index s d p < n - 1 then res ! p + this_grad p
                                else res ! p) [0..<N];
               res2 = map (\<lambda>p. if 1 \<le> axis_index s d p \<and> axis_index s d p < n - 1
                                then res1 ! p - this_grad (p - st) else res1 ! p) [0..<N]
           in if n < 2 then Inl IndexError
              else Inr (map (\<lambda>p. if axis_index s d p = n - 1
                                  then res2 ! p - this_grad (p - st) else res2 ! p) [0..<N]))"

fun div_loop :: "real ndarray \<Rightarrow> nat list \<Rightarrow> real list \<Rightarrow> py_error + real list" where
  "div_loop grad [] res = Inr res"
| "div_loop grad (d # ds) res =
     (case div_axis grad d res of Inl e \<Rightarrow> Inl e | Inr res' \<Rightarrow> div_loop grad ds res')"

definition div_nd :: "real ndarray \<Rightarrow> py_error + real ndarray" where
  "div_nd grad =
     (case shape grad of
        [] \<Rightarrow> Inl IndexError
      | k # s \<Rightarrow>
          (case div_loop grad [0..<k] (replicate (prod_list s) 0) of
             Inl e \<Rightarrow> Inl e
           | Inr r \<Rightarrow> Inr \<lparr>shape = s, data = r\<rparr>))"

section \<open>The dual gap\<close>

text \<open>
  NumPy's float64 scalars divide by zero without raising: the quotient is \<open>inf\<close>, \<open>-inf\<close> or
  \<open>nan\<close>.  Where the source divides NumPy scalars, the result is an \<open>npfloat\<close>.
\<close>

datatype npfloat = Fin real | PosInf | NegInf | NaN

definition np_true_divide :: "real \<Rightarrow> real \<Rightarrow> npfloat" where
  "np_true_divide a b =
     (if b = 0 then (if a = 0 then NaN else if 0 < a then PosInf else NegInf) else Fin (a / b))"

fun np_multiply :: "npfloat \<Rightarrow> real \<Rightarrow> npfloat" where
  "np_multiply (Fin a) b = Fin (a * b)"
| "np_multiply PosInf b = (if b = 0 then NaN else if 0 < b then PosInf else NegInf)"
| "np_multiply NegInf b = (if b = 0 then NaN else if 0 < b then NegInf else PosInf)"
| "np_multiply NaN b = NaN"

fun np_less :: "npfloat \<Rightarrow> real \<Rightarrow> bool" where
  "np_less (Fin a) b = (a < b)"
| "np_less PosInf b = False"
| "np_less NegInf b = True"
| "np_less NaN b = False"

text \<open>
  \<open>g = np.zeros_like(new); g[..., :-1, ...] = np.diff(new, axis=d)\<close>, the \<open>:-1\<close> at axis
  \<open>d\<close>: the forward difference along axis \<open>d\<close>, zero at the last index of that axis.
\<close>

definition diff_padded :: "real ndarray \<Rightarrow> nat \<Rightarrow> real list" where
  "diff_padded new d =
     (let s = shape new
      in map (\<lambda>p. if axis_index s d p < s ! d - 1
                   then data new ! (p + stride s d) - data new ! p else 0)
           [0..<prod_list s])"

text \<open>
  \<open>dual_gap(im, new, gap, weight)\<close>.  \<open>np.diff(new, axis=1)\<close> needs two axes and, when
  \<open>im.ndim == 3\<close>, \<open>np.diff(new, axis=2)\<close> needs three (\<open>IndexError\<close> otherwise); with
  \<open>im.ndim == 3\<close> and more than three axes in \<open>new\<close> the assignment to \<open>gz[..., :-1]\<close>
  does not fit.
\<close>

definition dual_gap ::
  "real ndarray \<Rightarrow> real ndarray \<Rightarrow> real ndarray \<Rightarrow> real \<Rightarrow> py_error + npfloat" where
  "dual_gap im new gap_field weight =
     (let im_norm = sq_norm im
      in if ndim new < 2 then Inl IndexError
         else
           let gx = diff_padded new 0; gy = diff_padded new 1
           in if ndim im = 3 then
                (if ndim new < 3 then Inl IndexError
                 else if 3 < ndim new then Inl (ValueError ''could not broadcast input array'')
                 else
                   let gz = diff_padded new 2;
                       tv_new = 2 * weight *
                         sum_list (map (\<lambda>p. sqrt ((gx ! p)\<^sup>2 + (gy ! p)\<^sup>2 + (gz ! p)\<^sup>2))
                           [0..<length (data new)]);
                       dual_gap = sq_norm gap_field + tv_new - im_norm + sq_norm new
                   in Inr (np_multiply (np_true_divide 0.5 im_norm) dual_gap))
              else
                let tv_new = 2 * weight *
                      sum_list (map (\<lambda>p. sqrt ((gx ! p)\<^sup>2 + (gy ! p)\<^sup>2))
                        [0..<length (data new)]);
                    dual_gap = sq_norm gap_field + tv_new - im_norm + sq_norm new
                in Inr (np_multiply (np_true_divide 0.5 im_norm) dual_gap))"

section \<open>The FISTA solver\<close>

text \<open>
  \<open>ndarray.clip(lo, hi)\<close> on floats, with \<open>nan\<close> for a bound that is not set (\<open>None\<close>
  here): a \<open>nan\<close> bound does not clip; otherwise an element below \<open>lo\<close> becomes \<open>lo\<close>,
  else one above \<open>hi\<close> becomes \<open>hi\<close>.
\<close>

definition np_clip :: "real option \<Rightarrow> real option \<Rightarrow> real \<Rightarrow> real" where
  "np_clip lo hi x =
     (case (lo, hi) of
        (None, None) \<Rightarrow> x
      | (Some l, None) \<Rightarrow> if x < l then l else x
      | (None, Some h) \<Rightarrow> if h < x then h else x
      | (Some l, Some h) \<Rightarrow> if x < l then l else if h < x then h else x)"

text \<open>\<open>np.max\<close> raises \<open>ValueError\<close> on an array without elements.\<close>

definition np_max :: "real list \<Rightarrow> py_error + real" where
  "np_max xs =
     (case xs of
        [] \<Rightarrow> Inl (ValueError ''zero-size array to reduction operation maximum'')
      | x # ys \<Rightarrow> Inr (fold max ys x))"

text \<open>The arguments of \<open>tv_denoise_fista\<close> (without \<open>verbose\<close>, which only prints).\<close>

record fista_args =
  input_img :: "real ndarray"
  weight :: real
  eps :: real
  n_iter_max :: int
  check_gap_frequency :: int
  val_min :: "real option"
  val_max :: "real option"

text \<open>
  The variables the loop carries.  \<open>gap\<close> is assigned only inside the loop, and
  \<open>negated_output_old\<close> only when a bound is given: \<open>None\<close> is "not yet bound".
\<close>

record fista_state =
  grad_im :: "real ndarray"
  grad_aux :: "real ndarray"
  t :: real
  negated_output :: "real ndarray"
  negated_output_old :: "real ndarray option"
  gap :: "real ndarray option"

definition negated_val_min :: "fista_args \<Rightarrow> real option" where
  "negated_val_min A = (case val_min A of None \<Rightarrow> None | Some v \<Rightarrow> Some (- v))"

definition negated_val_max :: "fista_args \<Rightarrow> real option" where
  "negated_val_max A = (case val_max A of None \<Rightarrow> None | Some v \<Rightarrow> Some (- v))"

definition bounded :: "fista_args \<Rightarrow> bool" where
  "bounded A = (val_min A \<noteq> None \<or> val_max A \<noteq> None)"

text \<open>
  The first statements of the loop body (lines 170 to 173): the gradient of
  \<open>negated_output\<close>, scaled by \<open>1. / (lipschitz_constant * weight)\<close> (Python raises
  \<open>ZeroDivisionError\<close> for a zero divisor), is added to \<open>grad_aux\<close>, and the sum is
  projected.
\<close>

definition dual_ascent ::
  "fista_args \<Rightarrow> int \<Rightarrow> fista_state \<Rightarrow> py_error + real ndarray" where
  "dual_ascent A lipschitz_constant st =
     (let grad_tmp = gradient (negated_output st)
      in if of_int lipschitz_constant * weight A = 0 then Inl ZeroDivisionError
         else
           let grad_tmp = nd_scale (1 / (of_int lipschitz_constant * weight A)) grad_tmp
           in Inr (nd_add (grad_aux st) grad_tmp))"

text \<open>
  The convergence test of lines 186 to 203: the flag says whether the loop breaks, and the
  state is the one the next iteration starts from.
\<close>

definition check_gap ::
  "fista_args \<Rightarrow> int \<Rightarrow> fista_state \<Rightarrow> py_error + bool \<times> fista_state" where
  "check_gap A i st =
     (if check_gap_frequency A = 0 then Inl ZeroDivisionError
      else if i mod check_gap_frequency A = 0 then
        (if val_min A = None \<and> val_max A = None then
           (case gap st of
              None \<Rightarrow> Inl UnboundLocalError
            | Some gp \<Rightarrow>
                (case dual_gap (input_img A) (nd_neg (negated_output st)) gp (weight A) of
                   Inl e \<Rightarrow> Inl e
                 | Inr dgap \<Rightarrow> Inr (np_less dgap (eps A), st)))
         else
           (case negated_output_old st of
              None \<Rightarrow> Inl UnboundLocalError
            | Some old \<Rightarrow>
                (case np_max (data (nd_map abs (nd_sub old (negated_output st)))) of
                   Inl e \<Rightarrow> Inl e
                 | Inr diff \<Rightarrow>
                     (case np_max (data (nd_map abs (negated_output st))) of
                        Inl e \<Rightarrow> Inl e
                      | Inr m \<Rightarrow>
                          if np_less (np_true_divide diff m) (eps A) then Inr (True, st)
                          else Inr (False, st\<lparr>negated_output_old :=
                                 Some (negated_output st)\<rparr>)))))
      else Inr (False, st))"

text \<open>One pass through the loop body (lines 170 to 203).\<close>

definition fista_step ::
  "fista_args \<Rightarrow> int \<Rightarrow> int \<Rightarrow> fista_state \<Rightarrow> py_error + bool \<times> fista_state" where
  "fista_step A lipschitz_constant i st =
     (case dual_ascent A lipschitz_constant st of
        Inl e \<Rightarrow> Inl e
      | Inr aux \<Rightarrow>
          (case projector_on_dual aux of
             Inl e \<Rightarrow> Inl e
           | Inr grad_tmp \<Rightarrow>
               (let t_new = 1 / 2 * (1 + sqrt (1 + 4 * (t st)\<^sup>2));
                    t_factor = (t st - 1) / t_new;
                    grad_aux' = nd_sub (nd_scale (1 + t_factor) grad_tmp)
                                  (nd_scale t_factor (grad_im st))
                in case div_nd grad_tmp of
                     Inl e \<Rightarrow> Inl e
                   | Inr dv \<Rightarrow>
                       (let gap' = nd_scale (weight A) dv;
                            neg = nd_sub gap' (input_img A);
                            neg' = (if bounded A
                                    then nd_map (np_clip (negated_val_max A) (negated_val_min A)) neg
                                    else neg)
                        in check_gap A i
                             \<lparr>grad_im = grad_tmp, grad_aux = grad_aux', t = t_new,
                              negated_output = neg',
                              negated_output_old = negated_output_old st,
                              gap = Some gap'\<rparr>))))"

function fista_loop ::
  "fista_args \<Rightarrow> int \<Rightarrow> int \<Rightarrow> fista_state \<Rightarrow> py_error + fista_state" where
  "fista_loop A lipschitz_constant i st =
     (if i < n_iter_max A then
        (case fista_step A lipschitz_constant i st of
           Inl e \<Rightarrow> Inl e
         | Inr (brk, st') \<Rightarrow>
             if brk then Inr st' else fista_loop A lipschitz_constant (i + 1) st')
      else Inr st)"
  by pat_completeness auto
termination
  by (relation "measure (\<lambda>(A, L, i, st). nat (n_iter_max A - i))") auto

declare fista_loop.simps [simp del]

text \<open>
  Everything after the choice of \<open>lipschitz_constant\<close>: the initial values, the loop,
  and lines 205 to 209.
\<close>

definition fista_run :: "fista_args \<Rightarrow> int \<Rightarrow> py_error + real ndarray" where
  "fista_run A lipschitz_constant =
     (let shp = ndim (input_img A) # shape (input_img A);
          negated_output0 = nd_neg (input_img A);
          st0 = \<lparr>grad_im = zeros shp, grad_aux = zeros shp, t = 1,
                 negated_output = negated_output0,
                 negated_output_old = (if bounded A then Some negated_output0 else None),
                 gap = None\<rparr>
      in case fista_loop A lipschitz_constant 0 st0 of
           Inl e \<Rightarrow> Inl e
         | Inr st \<Rightarrow>
             (case gap st of
                None \<Rightarrow> Inl UnboundLocalError
              | Some gp \<Rightarrow>
                  (let output = nd_sub (input_img A) gp
                   in Inr (if bounded A
                           then nd_map (np_clip (map_option uminus (negated_val_min A))
                                          (map_option uminus (negated_val_max A))) output
                           else output))))"

definition tv_denoise_fista :: "fista_args \<Rightarrow> py_error + real ndarray" where
  "tv_denoise_fista A =
     (if ndim (input_img A) = 2 then fista_run A 9
      else if ndim (input_img A) = 3 then fista_run A 12
      else Inl (ValueError ''Cannot compute TV for images that are not 2D or 3D''))"

section \<open>Notions used to state the properties\<close>

text \<open>The array after the first \<open>k\<close> passes of the loop of \<open>gradient\<close>.\<close>

definition gradient_upto :: "'a::{zero,minus} ndarray \<Rightarrow> nat \<Rightarrow> 'a ndarray" where
  "gradient_upto img k =
     foldl (\<lambda>g d. assign_diff img d g) (zeros (ndim img # shape img)) [0..<k]"

text \<open>
  The isotropic total variation of an image: the sum over the grid points of the Euclidean
  norm, across the axes, of the forward differences that \<open>gradient\<close> computes.
\<close>

definition total_variation :: "real ndarray \<Rightarrow> real" where
  "total_variation x = sum_list (map (point_norm (gradient x)) [0..<prod_list (shape x)])"

text \<open>
  What the three statements of the loop body of \<open>div\<close> for axis \<open>d\<close> add at place \<open>p\<close>
  when that axis has at least two entries.
\<close>

definition div_term :: "real ndarray \<Rightarrow> nat \<Rightarrow> nat \<Rightarrow> real" where
  "div_term y d p =
     (let s = tl (shape y); N = prod_list s
      in (if axis_index s d p < s ! d - 1 then data y ! (d * N + p) else 0)
         - (if 1 \<le> axis_index s d p then data y ! (d * N + (p - stride s d)) else 0))"

text \<open>
  What every pass of the loop of \<open>tv_denoise_fista\<close> keeps: the shape of \<open>grad_aux\<close>, the
  number of elements of \<open>negated_output\<close>, of \<open>gap\<close> once it is bound and of
  \<open>negated_output_old\<close>, which is bound whenever a bound on the values is given.
\<close>

definition fista_inv :: "fista_args \<Rightarrow> fista_state \<Rightarrow> bool" where
  "fista_inv A st =
     (let s = shape (input_img A); N = prod_list s
      in shape (grad_aux st) = length s # s \<and>
         length (data (negated_output st)) = N \<and>
         (case gap st of None \<Rightarrow> True | Some gp \<Rightarrow> length (data gp) = N) \<and>
         (if bounded A
          then (case negated_output_old st of None \<Rightarrow> False
                | Some old \<Rightarrow> length (data old) = N)
          else True))"

section \<open>Evaluation on small arrays\<close>

text \<open>
  Intervals and constant lists written out, and the functions evaluated on the small arrays
  that the examples below use.
\<close>

lemma upt_0_2: "[0..<2] = [0, 1]"
  by (simp add: upt_rec)

lemma upt_0_3: "[0..<3] = [0, 1, 2]"
  by (simp add: upt_rec)

lemma upt_0_4: "[0..<4] = [0, 1, 2, 3]"
  by (simp add: upt_rec)

lemma upt_0_6: "[0..<6] = [0, 1, 2, 3, 4, 5]"
  by (simp add: upt_rec)

lemma upt_0_8: "[0..<8] = [0, 1, 2, 3, 4, 5, 6, 7]"
  by (simp add: upt_rec)

lemma replicate_4: "replicate 4 x = [x, x, x, x]"
  by (simp add: eval_nat_numeral)

lemma replicate_6: "replicate 6 x = [x, x, x, x, x, x]"
  by (simp add: eval_nat_numeral)

lemma replicate_8: "replicate 8 x = [x, x, x, x, x, x, x, x]"
  by (simp add: eval_nat_numeral)


lemma ex_gradient:
  "gradient \<lparr>shape = [2, 2], data = [0, - 9, 0, 0 :: real]\<rparr>
     = \<lparr>shape = [2, 2, 2], data = [0, 9, 0, 0, - 9, 0, 0, 0]\<rparr>"
  by (simp add: gradient_def assign_diff_def zeros_def ndim_def Let_def axis_index_def
      stride_def upt_0_2 upt_0_8)

lemma ex_gradient_second:
  "gradient \<lparr>shape = [2, 2], data = [- 1, - 7, 0, - 1 :: real]\<rparr>
     = \<lparr>shape = [2, 2, 2], data = [1, 6, 0, 0, - 6, 0, - 1, 0]\<rparr>"
  by (simp add: gradient_def assign_diff_def zeros_def ndim_def Let_def axis_index_def
      stride_def upt_0_2 upt_0_8)

lemma ex_gradient_second_negated:
  "gradient \<lparr>shape = [2, 2], data = [1, 7, 0, 1 :: real]\<rparr>
     = \<lparr>shape = [2, 2, 2], data = [- 1, - 6, 0, 0, 6, 0, 1, 0]\<rparr>"
  by (simp add: gradient_def assign_diff_def zeros_def ndim_def Let_def axis_index_def
      stride_def upt_0_2 upt_0_8)

lemma ex_projector:
  "projector_on_dual \<lparr>shape = [2, 2, 2], data = [0, 1, 0, 0, - 1, 0, 0, 0]\<rparr>
     = Inr \<lparr>shape = [2, 2, 2], data = [0, 1, 0, 0, - 1, 0, 0, 0]\<rparr>"
  by (simp add: projector_on_dual_def point_norm_def Let_def upt_0_2 upt_0_4)

lemma projector_on_dual_example:
  "projector_on_dual \<lparr>shape = [2, 1, 2], data = [3, 0, 4, 0]\<rparr>
     = Inr \<lparr>shape = [2, 1, 2], data = [3 / 5, 0, 4 / 5, 0]\<rparr>"
  by (simp add: projector_on_dual_def point_norm_def Let_def upt_0_2)

lemma ex_div:
  "div_nd \<lparr>shape = [2, 2, 2], data = [0, 1, 0, 0, - 1, 0, 0, 0]\<rparr>
     = Inr \<lparr>shape = [2, 2], data = [- 1, 2, 0, - 1]\<rparr>"
  by (simp add: div_nd_def div_axis_def Let_def axis_index_def stride_def upt_0_2 upt_0_4)

lemma ex_div_2_3:
  "div_nd \<lparr>shape = [2, 2, 3], data = [1, 2, 3, 4, 5, 6, 10, 20, 30, 40, 50, 60]\<rparr>
     = Inr \<lparr>shape = [2, 3], data = [11, 12, - 17, 39, 8, - 53]\<rparr>"
  by (simp add: div_nd_def div_axis_def Let_def axis_index_def stride_def upt_0_2 upt_0_6
      replicate_6)

section \<open>Blocks of a row-major array\<close>

lemma length_concat_blocks:
  "length (concat (map (\<lambda>c. map (f c) [0..<N]) [0..<k])) = k * N"
  by (induction k) simp_all

lemma nth_concat_blocks:
  "c < k \<Longrightarrow> p < N \<Longrightarrow> concat (map (\<lambda>c. map (f c) [0..<N]) [0..<k]) ! (c * N + p) = f c p"
proof (induction k)
  case 0
  then show ?case by simp
next
  case (Suc k)
  show ?case
  proof (cases "c < k")
    case True
    then have "Suc c * N \<le> k * N"
      by (simp only: mult_le_mono1 Suc_leI)
    with Suc.prems(2) have "c * N + p < k * N"
      by simp
    with True Suc show ?thesis
      by (simp add: nth_append length_concat_blocks)
  next
    case False
    with Suc.prems have "c = k" by simp
    with Suc.prems show ?thesis
      by (simp add: nth_append length_concat_blocks)
  qed
qed

lemma block_index_iff:
  assumes "p < (N::nat)"
  shows "(k * N \<le> d * N + p \<and> d * N + p < Suc k * N) = (d = k)"
proof (cases "d = k")
  case True
  then show ?thesis using assms by simp
next
  case False
  show ?thesis
  proof (cases "d < k")
    case True
    then have "Suc d * N \<le> k * N"
      by (simp only: mult_le_mono1 Suc_leI)
    then have "d * N + p < k * N"
      using assms by simp
    then show ?thesis using False by simp
  next
    case False
    with \<open>d \<noteq> k\<close> have "Suc k \<le> d" by simp
    then have "Suc k * N \<le> d * N"
      by (simp only: mult_le_mono1)
    then show ?thesis using \<open>d \<noteq> k\<close> by simp
  qed
qed

lemma block_sum:
  fixes g :: "nat \<Rightarrow> real"
  shows "(\<Sum>q<k * N. g q) = (\<Sum>d<k. \<Sum>p<N. g (d * N + p))"
proof -
  have "(\<Sum>p<N. g (d * N + p)) = sum g {d * N..<d * N + N}" for d
    using sum.shift_bounds_nat_ivl [of g 0 "d * N" N]
    by (simp add: atLeast0LessThan add.commute)
  then show ?thesis
    using sum.nat_group [of g N k] by simp
qed

lemma sum_list_map2_nth:
  fixes a b :: "real list"
  assumes "length a = length b"
  shows "sum_list (map2 f a b) = (\<Sum>i<length a. f (a ! i) (b ! i))"
proof -
  have "sum_list (map2 f a b) = (\<Sum>i = 0..<length (map2 f a b). map2 f a b ! i)"
    by (rule sum_list_sum_nth)
  also have "\<dots> = (\<Sum>i = 0..<length a. f (a ! i) (b ! i))"
    using assms by (intro sum.cong) simp_all
  finally show ?thesis
    by (simp add: atLeast0LessThan)
qed


section \<open>Properties of the projection\<close>

lemma point_norm_nonneg: "0 \<le> point_norm g p"
  unfolding point_norm_def Let_def
  by (intro real_sqrt_ge_zero sum_list_nonneg) auto

lemma projector_on_dual_rank2:
  assumes "2 \<le> length (shape g)"
  shows "projector_on_dual g =
     Inr (g\<lparr>data := concat (map (\<lambda>c. map (\<lambda>p. data g ! (c * grid_size g + p) /
            max (point_norm g p) 1) [0..<grid_size g]) [0..<hd (shape g)])\<rparr>)"
proof -
  obtain k n s where sh: "shape g = k # n # s"
    using assms by (cases "shape g"; cases "tl (shape g)") auto
  define N where "N = prod_list (n # s)"
  have N: "grid_size g = N"
    by (simp add: grid_size_def sh N_def)
  have "(\<lambda>c. map (\<lambda>p. data g ! (c * N + p) /
            map (\<lambda>p. max (point_norm g p) 1) [0..<N] ! p) [0..<N])
      = (\<lambda>c. map (\<lambda>p. data g ! (c * N + p) / max (point_norm g p) 1) [0..<N])"
    by (intro ext map_cong) simp_all
  then have "projector_on_dual g = Inr (g\<lparr>data := concat (map (\<lambda>c. map (\<lambda>p. data g ! (c * N + p) /
            max (point_norm g p) 1) [0..<N]) [0..<k])\<rparr>)"
    unfolding projector_on_dual_def sh N_def [symmetric] list.case Let_def by simp
  then show ?thesis
    by (simp add: N sh)
qed

lemma projector_on_dual_nth:
  assumes "2 \<le> length (shape g)" and "projector_on_dual g = Inr g'"
    and "c < hd (shape g)" and "p < grid_size g"
  shows "data g' ! (c * grid_size g + p) =
         data g ! (c * grid_size g + p) / max (point_norm g p) 1"
proof -
  have "data g' = concat (map (\<lambda>c. map (\<lambda>p. data g ! (c * grid_size g + p) /
            max (point_norm g p) 1) [0..<grid_size g]) [0..<hd (shape g)])"
    using assms(2) projector_on_dual_rank2 [OF assms(1)] by auto
  then show ?thesis
    using nth_concat_blocks [OF assms(3,4)] by simp
qed

lemma projector_on_dual_shape:
  assumes "projector_on_dual g = Inr g'"
  shows "shape g' = shape g"
  using assms
  by (auto simp: projector_on_dual_def Let_def split: list.splits)

lemma projector_on_dual_length:
  assumes "projector_on_dual g = Inr g'" and "valid_array g"
  shows "valid_array g'"
proof (cases "2 \<le> length (shape g)")
  case True
  then obtain k n s where sh: "shape g = k # n # s"
    by (cases "shape g"; cases "tl (shape g)") auto
  have "data g' = concat (map (\<lambda>c. map (\<lambda>p. data g ! (c * grid_size g + p) /
            max (point_norm g p) 1) [0..<grid_size g]) [0..<hd (shape g)])"
    using assms(1) projector_on_dual_rank2 [OF True] by auto
  then have "length (data g') = hd (shape g) * grid_size g"
    by (simp only: length_concat_blocks)
  then show ?thesis
    using projector_on_dual_shape [OF assms(1)] sh
    by (simp add: valid_array_def grid_size_def)
next
  case False
  then show ?thesis
    using assms
    by (auto simp: projector_on_dual_def Let_def split: list.splits)
qed

lemma projector_on_dual_point_norm:
  assumes "2 \<le> length (shape g)" and "projector_on_dual g = Inr g'"
    and "p < grid_size g"
  shows "point_norm g' p = point_norm g p / max (point_norm g p) 1"
proof -
  let ?N = "grid_size g"
  let ?k = "hd (shape g)"
  let ?m = "max (point_norm g p) 1"
  have m: "0 < ?m" by simp
  have sh: "shape g' = shape g"
    using projector_on_dual_shape [OF assms(2)] .
  have "map (\<lambda>c. (data g' ! (c * ?N + p))\<^sup>2) [0..<?k]
      = map (\<lambda>c. (data g ! (c * ?N + p))\<^sup>2 * (1 / ?m\<^sup>2)) [0..<?k]"
  proof (rule map_cong)
    fix c assume "c \<in> set [0..<?k]"
    then have "c < ?k" by simp
    then show "(data g' ! (c * ?N + p))\<^sup>2 = (data g ! (c * ?N + p))\<^sup>2 * (1 / ?m\<^sup>2)"
      by (simp only: projector_on_dual_nth [OF assms(1,2) _ assms(3)] power_divide)
         simp
  qed simp
  then have "sum_list (map (\<lambda>c. (data g' ! (c * ?N + p))\<^sup>2) [0..<?k])
      = sum_list (map (\<lambda>c. (data g ! (c * ?N + p))\<^sup>2) [0..<?k]) * (1 / ?m\<^sup>2)"
    by (simp only: sum_list_mult_const)
  then have "point_norm g' p = sqrt (sum_list (map (\<lambda>c. (data g ! (c * ?N + p))\<^sup>2) [0..<?k]) / ?m\<^sup>2)"
    using sh by (simp add: point_norm_def grid_size_def)
  also have "\<dots> = point_norm g p / ?m"
    using m by (simp add: point_norm_def grid_size_def real_sqrt_divide)
  finally show ?thesis .
qed

lemma projector_on_dual_point_norm_le:
  assumes "2 \<le> length (shape g)" and "projector_on_dual g = Inr g'"
    and "p < grid_size g"
  shows "point_norm g' p \<le> 1"
proof -
  have "0 < max (point_norm g p) 1"
    by simp
  then have "point_norm g p / max (point_norm g p) 1 \<le> 1"
    by (simp only: divide_le_eq_1_pos max.cobounded1)
  then show ?thesis
    by (simp only: projector_on_dual_point_norm [OF assms])
qed

lemma projector_on_dual_error:
  "projector_on_dual g = Inl e \<Longrightarrow> e = TypeError"
  by (auto simp: projector_on_dual_def Let_def split: list.splits)



text \<open>
  Claim C10.  The dual projection is idempotent: projecting the field that
  \<open>_projector_on_dual\<close> returned gives that field again.
\<close>

theorem projector_on_dual_idempotent:
  assumes "projector_on_dual f = Inr g"
  shows "projector_on_dual g = Inr g"
proof (cases "2 \<le> length (shape f)")
  case True
  have sh: "shape g = shape f"
    using projector_on_dual_shape [OF assms] .
  then have gs: "grid_size g = grid_size f"
    by (simp add: grid_size_def)
  have True': "2 \<le> length (shape g)"
    using True sh by simp
  let ?N = "grid_size f"
  let ?k = "hd (shape f)"
  have dg: "data g = concat (map (\<lambda>c. map (\<lambda>p. data f ! (c * ?N + p) /
            max (point_norm f p) 1) [0..<?N]) [0..<?k])"
    using assms projector_on_dual_rank2 [OF True] by auto
  have "concat (map (\<lambda>c. map (\<lambda>p. data g ! (c * ?N + p) /
            max (point_norm g p) 1) [0..<?N]) [0..<?k])
      = concat (map (\<lambda>c. map (\<lambda>p. data f ! (c * ?N + p) /
            max (point_norm f p) 1) [0..<?N]) [0..<?k])"
  proof (intro arg_cong [where f = concat] map_cong refl)
    fix c p assume "c \<in> set [0..<?k]" and "p \<in> set [0..<?N]"
    then have c: "c < ?k" and p: "p < ?N" by simp_all
    have "point_norm g p \<le> 1"
      using projector_on_dual_point_norm_le [OF True assms p] .
    then have "max (point_norm g p) 1 = 1"
      by simp
    then show "data g ! (c * ?N + p) / max (point_norm g p) 1
        = data f ! (c * ?N + p) / max (point_norm f p) 1"
      using projector_on_dual_nth [OF True assms c p] by simp
  qed
  then have "projector_on_dual g = Inr (g\<lparr>data := data g\<rparr>)"
    using projector_on_dual_rank2 [OF True'] dg by (simp add: gs sh)
  then show ?thesis by simp
next
  case False
  then show ?thesis
    using assms
    by (auto simp: projector_on_dual_def Let_def split: list.splits)
qed

theorem projector_on_dual_idempotent_witness:
  "projector_on_dual \<lparr>shape = [2, 1, 2], data = [3, 0, 4, 0]\<rparr>
     = Inr \<lparr>shape = [2, 1, 2], data = [3 / 5, 0, 4 / 5, 0]\<rparr> \<and>
   projector_on_dual \<lparr>shape = [2, 1, 2], data = [3 / 5, 0, 4 / 5, 0]\<rparr>
     = Inr \<lparr>shape = [2, 1, 2], data = [3 / 5, 0, 4 / 5, 0]\<rparr>"
  using projector_on_dual_idempotent [OF projector_on_dual_example] projector_on_dual_example
  by simp

section \<open>Properties of the gradient\<close>

lemma shape_assign_diff: "shape (assign_diff img d g) = shape g"
  by (simp add: assign_diff_def Let_def)

lemma length_assign_diff: "length (data (assign_diff img d g)) = length (data g)"
  by (simp add: assign_diff_def Let_def)

lemma nth_assign_diff:
  assumes "q < length (data g)"
  shows "data (assign_diff img d g) ! q =
     (if d * prod_list (shape img) \<le> q \<and> q < Suc d * prod_list (shape img) \<and>
         axis_index (shape img) d (q - d * prod_list (shape img)) < shape img ! d - 1
      then data img ! (q - d * prod_list (shape img) + stride (shape img) d)
             - data img ! (q - d * prod_list (shape img))
      else data g ! q)"
  using assms by (simp add: assign_diff_def Let_def)

lemma gradient_upto_Suc:
  "gradient_upto img (Suc k) = assign_diff img k (gradient_upto img k)"
  by (simp add: gradient_upto_def)

lemma shape_gradient_upto: "shape (gradient_upto img k) = ndim img # shape img"
  by (induction k) (simp_all add: gradient_upto_Suc shape_assign_diff, simp add: gradient_upto_def zeros_def)

lemma length_gradient_upto:
  "length (data (gradient_upto img k)) = ndim img * prod_list (shape img)"
  by (induction k) (simp_all add: gradient_upto_Suc length_assign_diff, simp add: gradient_upto_def zeros_def)

lemma nth_gradient_upto:
  assumes "d < ndim img" and "p < prod_list (shape img)"
  shows "data (gradient_upto img k) ! (d * prod_list (shape img) + p) =
     (if d < k \<and> axis_index (shape img) d p < shape img ! d - 1
      then data img ! (p + stride (shape img) d) - data img ! p else 0)"
proof (induction k)
  case 0
  have "Suc d * prod_list (shape img) \<le> ndim img * prod_list (shape img)"
    using assms(1) by (simp only: mult_le_mono1 Suc_leI)
  then have "d * prod_list (shape img) + p < ndim img * prod_list (shape img)"
    using assms(2) by simp
  then show ?case
    by (simp add: gradient_upto_def zeros_def)
next
  case (Suc k)
  let ?N = "prod_list (shape img)"
  have "Suc d * ?N \<le> ndim img * ?N"
    using assms(1) by (simp only: mult_le_mono1 Suc_leI)
  then have len: "d * ?N + p < length (data (gradient_upto img k))"
    using assms(2) by (simp add: length_gradient_upto)
  have step: "data (gradient_upto img (Suc k)) ! (d * ?N + p) =
     (if k * ?N \<le> d * ?N + p \<and> d * ?N + p < Suc k * ?N \<and>
         axis_index (shape img) k (d * ?N + p - k * ?N) < shape img ! k - 1
      then data img ! (d * ?N + p - k * ?N + stride (shape img) k)
             - data img ! (d * ?N + p - k * ?N)
      else data (gradient_upto img k) ! (d * ?N + p))"
    unfolding gradient_upto_Suc by (rule nth_assign_diff [OF len])
  show ?case
  proof (cases "d = k")
    case True
    have "k * ?N \<le> k * ?N + p \<and> k * ?N + p < Suc k * ?N"
      using assms(2) by simp
    then show ?thesis
      using step Suc True by simp
  next
    case False
    then have "\<not> (k * ?N \<le> d * ?N + p \<and> d * ?N + p < Suc k * ?N)"
      using block_index_iff [OF assms(2), of k d] by simp
    then have "data (gradient_upto img (Suc k)) ! (d * ?N + p) = data (gradient_upto img k) ! (d * ?N + p)"
      unfolding step by auto
    then show ?thesis
      using False Suc by (auto simp: less_Suc_eq)
  qed
qed

lemma gradient_eq_upto: "gradient img = gradient_upto img (ndim img)"
  by (simp add: gradient_def gradient_upto_def)

lemma shape_gradient: "shape (gradient img) = ndim img # shape img"
  by (simp add: gradient_eq_upto shape_gradient_upto)

lemma length_gradient: "length (data (gradient img)) = ndim img * prod_list (shape img)"
  by (simp add: gradient_eq_upto length_gradient_upto)

lemma valid_gradient: "valid_array (gradient img)"
  by (simp add: valid_array_def shape_gradient length_gradient)

lemma nth_gradient:
  assumes "d < ndim img" and "p < prod_list (shape img)"
  shows "data (gradient img) ! (d * prod_list (shape img) + p) =
     (if axis_index (shape img) d p < shape img ! d - 1
      then data img ! (p + stride (shape img) d) - data img ! p else 0)"
  using nth_gradient_upto [OF assms, of "ndim img"] assms(1)
  by (simp add: gradient_eq_upto)

lemma nth_diff_padded:
  assumes "p < prod_list (shape new)"
  shows "diff_padded new d ! p =
     (if axis_index (shape new) d p < shape new ! d - 1
      then data new ! (p + stride (shape new) d) - data new ! p else 0)"
  using assms by (simp add: diff_padded_def Let_def)

lemma gradient_component:
  assumes "d < ndim x" and "p < prod_list (shape x)"
  shows "data (gradient x) ! (d * prod_list (shape x) + p) = diff_padded x d ! p"
  by (simp only: nth_gradient [OF assms] nth_diff_padded [OF assms(2)])

lemma point_norm_gradient_2:
  assumes "ndim x = 2" and "p < prod_list (shape x)"
  shows "point_norm (gradient x) p = sqrt ((diff_padded x 0 ! p)\<^sup>2 + (diff_padded x 1 ! p)\<^sup>2)"
proof -
  have "data (gradient x) ! (0 * prod_list (shape x) + p) = diff_padded x 0 ! p"
    and "data (gradient x) ! (1 * prod_list (shape x) + p) = diff_padded x 1 ! p"
    using assms by (simp_all only: gradient_component)
  then show ?thesis
    using assms(1) by (simp add: point_norm_def shape_gradient upt_0_2)
qed

lemma point_norm_gradient_3:
  assumes "ndim x = 3" and "p < prod_list (shape x)"
  shows "point_norm (gradient x) p =
     sqrt ((diff_padded x 0 ! p)\<^sup>2 + (diff_padded x 1 ! p)\<^sup>2 + (diff_padded x 2 ! p)\<^sup>2)"
proof -
  have "data (gradient x) ! (0 * prod_list (shape x) + p) = diff_padded x 0 ! p"
    and "data (gradient x) ! (1 * prod_list (shape x) + p) = diff_padded x 1 ! p"
    and "data (gradient x) ! (2 * prod_list (shape x) + p) = diff_padded x 2 ! p"
    using assms by (simp_all only: gradient_component)
  then show ?thesis
    using assms(1) by (simp add: point_norm_def shape_gradient upt_0_3)
qed

section \<open>Multi-indices\<close>

lemma stride_Cons_0: "stride (n # s) 0 = prod_list s"
  by (simp add: stride_def)

lemma stride_Cons_Suc: "stride (n # s) (Suc k) = stride s k"
  by (simp add: stride_def)

lemma prod_list_split:
  "k < length s \<Longrightarrow> prod_list s = prod_list (take k s) * (s ! k * stride s k)"
proof -
  assume "k < length s"
  then have "s = take k s @ s ! k # drop (Suc k) s"
    by (rule id_take_nth_drop)
  then have "prod_list s = prod_list (take k s @ s ! k # drop (Suc k) s)"
    by simp
  then show ?thesis
    by (simp add: stride_def)
qed

lemma flat_index_less:
  "list_all2 (\<lambda>i n. i < n) idx s \<Longrightarrow> flat_index s idx < prod_list s"
proof (induction rule: list_all2_induct)
  case Nil
  then show ?case by simp
next
  case (Cons i idx n s)
  have "Suc i * prod_list s \<le> n * prod_list s"
    using Cons.hyps(1) by (simp only: mult_le_mono1 Suc_leI)
  then show ?case
    using Cons.IH by simp
qed

lemma axis_index_Cons_0:
  assumes "i < n" and "r < prod_list s"
  shows "axis_index (n # s) 0 (i * prod_list s + r) = i"
  using assms by (simp add: axis_index_def stride_Cons_0)

lemma axis_index_Cons_Suc:
  assumes "k < length s" and "r < prod_list s"
  shows "axis_index (n # s) (Suc k) (i * prod_list s + r) = axis_index s k r"
proof -
  let ?st = "stride s k"
  let ?m = "s ! k"
  let ?A = "prod_list (take k s)"
  have P: "prod_list s = ?A * (?m * ?st)"
    using assms(1) by (rule prod_list_split)
  have "0 < ?st"
    using assms(2) P by (cases "?st = 0") simp_all
  have "i * prod_list s + r = (i * ?A * ?m) * ?st + r"
    by (simp add: P)
  moreover have "((i * ?A * ?m) * ?st + r) div ?st = i * ?A * ?m + r div ?st"
    using \<open>0 < ?st\<close> by (simp only: div_mult_self3 less_numeral_extra(3) neq0_conv not_False_eq_True)
  ultimately have "(i * prod_list s + r) div ?st = i * ?A * ?m + r div ?st"
    by (simp only:)
  then have "((i * prod_list s + r) div ?st) mod ?m = (r div ?st) mod ?m"
    by simp
  then show ?thesis
    by (simp add: axis_index_def stride_Cons_Suc)
qed

lemma axis_index_flat_index:
  "list_all2 (\<lambda>i n. i < n) idx s \<Longrightarrow> k < length s \<Longrightarrow>
     axis_index s k (flat_index s idx) = idx ! k"
proof (induction arbitrary: k rule: list_all2_induct)
  case Nil
  then show ?case by simp
next
  case (Cons i idx n s)
  have r: "flat_index s idx < prod_list s"
    using Cons.hyps(2) by (rule flat_index_less)
  show ?case
  proof (cases k)
    case 0
    then show ?thesis
      using axis_index_Cons_0 [OF Cons.hyps(1) r] by simp
  next
    case (Suc k')
    then have k': "k' < length s" using Cons.prems by simp
    show ?thesis
      using axis_index_Cons_Suc [OF k' r, of n i] Cons.IH [OF k'] Suc by simp
  qed
qed

lemma flat_index_step:
  "list_all2 (\<lambda>i n. i < n) idx s \<Longrightarrow> k < length s \<Longrightarrow>
     flat_index s (idx[k := Suc (idx ! k)]) = flat_index s idx + stride s k"
proof (induction arbitrary: k rule: list_all2_induct)
  case Nil
  then show ?case by simp
next
  case (Cons i idx n s)
  show ?case
  proof (cases k)
    case 0
    then show ?thesis by (simp add: stride_Cons_0)
  next
    case (Suc k')
    then have k': "k' < length s" using Cons.prems by simp
    show ?thesis
      using Cons.IH [OF k'] Suc by (simp add: stride_Cons_Suc)
  qed
qed

lemma elem_at_gradient:
  assumes "k < ndim img" and "valid_index (shape img) idx"
  shows "elem_at (gradient img) (k # idx) =
     (if Suc (idx ! k) < shape img ! k
      then elem_at img (idx[k := Suc (idx ! k)]) - elem_at img idx else 0)"
proof -
  have all2: "list_all2 (\<lambda>i n. i < n) idx (shape img)"
    using assms(2) by (simp add: valid_index_def)
  have k: "k < length (shape img)"
    using assms(1) by (simp add: ndim_def)
  have less: "flat_index (shape img) idx < prod_list (shape img)"
    using all2 by (rule flat_index_less)
  have "elem_at (gradient img) (k # idx)
      = data (gradient img) ! (k * prod_list (shape img) + flat_index (shape img) idx)"
    by (simp add: elem_at_def shape_gradient)
  also have "\<dots> =
     (if axis_index (shape img) k (flat_index (shape img) idx) < shape img ! k - 1
      then data img ! (flat_index (shape img) idx + stride (shape img) k)
             - data img ! flat_index (shape img) idx
      else 0)"
    using assms(1) less by (rule nth_gradient)
  also have "\<dots> =
     (if Suc (idx ! k) < shape img ! k
      then elem_at img (idx[k := Suc (idx ! k)]) - elem_at img idx else 0)"
    using axis_index_flat_index [OF all2 k] flat_index_step [OF all2 k]
    by (simp add: elem_at_def less_diff_conv)
  finally show ?thesis .
qed

text \<open>
  Claim C6.  For an array of any rank and any element type, \<open>gradient(img)\<close> has shape
  \<open>(rank, d0, d1, ...)\<close> and elements of the type of the input; in component \<open>k\<close>, the
  element at a multi-index whose entry along axis \<open>k\<close> is not the last is the image one
  step further along axis \<open>k\<close> minus the image there, and the element is zero where that
  entry is the last.
\<close>

theorem gradient_forward_difference:
  "shape (gradient img) = ndim img # shape img \<and> valid_array (gradient img) \<and>
   (\<forall>k idx. k < ndim img \<longrightarrow> valid_index (shape img) idx \<longrightarrow>
      elem_at (gradient img) (k # idx) =
        (if Suc (idx ! k) < shape img ! k
         then elem_at img (idx[k := Suc (idx ! k)]) - elem_at img idx else 0))"
  using shape_gradient [of img] valid_gradient [of img] elem_at_gradient [of _ img]
  by blast

theorem gradient_forward_difference_witness:
  "valid_index (shape \<lparr>shape = [2, 3], data = [1, 2, 4, 8, 16, 32 :: int]\<rparr>) [0, 1] \<and>
   valid_index (shape \<lparr>shape = [2, 3], data = [1, 2, 4, 8, 16, 32 :: int]\<rparr>) [0, 2] \<and>
   shape (gradient \<lparr>shape = [2, 3], data = [1, 2, 4, 8, 16, 32 :: int]\<rparr>) = [2, 2, 3] \<and>
   elem_at (gradient \<lparr>shape = [2, 3], data = [1, 2, 4, 8, 16, 32 :: int]\<rparr>) [1, 0, 1] = 4 - 2 \<and>
   elem_at (gradient \<lparr>shape = [2, 3], data = [1, 2, 4, 8, 16, 32 :: int]\<rparr>) [0, 0, 1] = 16 - 2 \<and>
   elem_at (gradient \<lparr>shape = [2, 3], data = [1, 2, 4, 8, 16, 32 :: int]\<rparr>) [1, 0, 2] = 0"
proof -
  let ?img = "\<lparr>shape = [2, 3], data = [1, 2, 4, 8, 16, 32 :: int]\<rparr>"
  have v1: "valid_index (shape ?img) [0, 1]" and v2: "valid_index (shape ?img) [0, 2]"
    by (simp_all add: valid_index_def)
  have n0: "0 < ndim ?img" and n1: "1 < ndim ?img"
    by (simp_all add: ndim_def)
  note g = gradient_forward_difference [of ?img]
  have step: "elem_at (gradient ?img) (k # idx) =
        (if Suc (idx ! k) < shape ?img ! k
         then elem_at ?img (idx[k := Suc (idx ! k)]) - elem_at ?img idx else 0)"
    if "k < ndim ?img" and "valid_index (shape ?img) idx" for k idx
    using g that by blast
  have "shape (gradient ?img) = ndim ?img # shape ?img"
    using g by blast
  then have sh: "shape (gradient ?img) = [2, 2, 3]"
    by (simp add: ndim_def)
  have "elem_at (gradient ?img) [1, 0, 1] =
        (if Suc ([0, 1] ! 1) < shape ?img ! 1
         then elem_at ?img ([0, 1][1 := Suc ([0, 1] ! 1)]) - elem_at ?img [0, 1] else 0)"
    using n1 v1 by (rule step)
  also have "\<dots> = 4 - 2"
    by (simp add: elem_at_def)
  finally have e1: "elem_at (gradient ?img) [1, 0, 1] = 4 - 2" .
  have "elem_at (gradient ?img) [0, 0, 1] =
        (if Suc ([0, 1] ! 0) < shape ?img ! 0
         then elem_at ?img ([0, 1][0 := Suc ([0, 1] ! 0)]) - elem_at ?img [0, 1] else 0)"
    using n0 v1 by (rule step)
  also have "\<dots> = 16 - 2"
    by (simp add: elem_at_def)
  finally have e2: "elem_at (gradient ?img) [0, 0, 1] = 16 - 2" .
  have "elem_at (gradient ?img) [1, 0, 2] =
        (if Suc ([0, 2] ! 1) < shape ?img ! 1
         then elem_at ?img ([0, 2][1 := Suc ([0, 2] ! 1)]) - elem_at ?img [0, 2] else 0)"
    using n1 v2 by (rule step)
  also have "\<dots> = 0"
    by simp
  finally have e3: "elem_at (gradient ?img) [1, 0, 2] = 0" .
  show ?thesis
    using v1 v2 sh e1 e2 e3 by (intro conjI)
qed

section \<open>The value of the dual gap\<close>

lemma np_scale_finite:
  "b \<noteq> 0 \<Longrightarrow> np_multiply (np_true_divide a b) c = Fin (a / b * c)"
  by (simp add: np_true_divide_def)

lemma dual_gap_rank_2:
  assumes "valid_array new" and "ndim new = 2" and "ndim im = 2" and "sq_norm im \<noteq> 0"
  shows "dual_gap im new gap_field w =
     Inr (Fin (0.5 / sq_norm im *
       (sq_norm gap_field + 2 * w * total_variation new - sq_norm im + sq_norm new)))"
proof -
  have len: "length (data new) = prod_list (shape new)"
    using assms(1) by (simp add: valid_array_def)
  have "map (\<lambda>p. sqrt ((diff_padded new 0 ! p)\<^sup>2 + (diff_padded new 1 ! p)\<^sup>2))
          [0..<prod_list (shape new)]
      = map (point_norm (gradient new)) [0..<prod_list (shape new)]"
    by (rule map_cong) (simp_all add: point_norm_gradient_2 [OF assms(2)])
  then have "sum_list (map (\<lambda>p. sqrt ((diff_padded new 0 ! p)\<^sup>2 + (diff_padded new 1 ! p)\<^sup>2))
          [0..<length (data new)]) = total_variation new"
    by (simp only: total_variation_def len)
  then show ?thesis
    using assms(2,3,4) by (simp add: dual_gap_def Let_def np_scale_finite)
qed

lemma dual_gap_rank_3:
  assumes "valid_array new" and "ndim new = 3" and "ndim im = 3" and "sq_norm im \<noteq> 0"
  shows "dual_gap im new gap_field w =
     Inr (Fin (0.5 / sq_norm im *
       (sq_norm gap_field + 2 * w * total_variation new - sq_norm im + sq_norm new)))"
proof -
  have len: "length (data new) = prod_list (shape new)"
    using assms(1) by (simp add: valid_array_def)
  have "map (\<lambda>p. sqrt ((diff_padded new 0 ! p)\<^sup>2 + (diff_padded new 1 ! p)\<^sup>2
            + (diff_padded new 2 ! p)\<^sup>2)) [0..<prod_list (shape new)]
      = map (point_norm (gradient new)) [0..<prod_list (shape new)]"
    by (rule map_cong) (simp_all add: point_norm_gradient_3 [OF assms(2)])
  then have "sum_list (map (\<lambda>p. sqrt ((diff_padded new 0 ! p)\<^sup>2 + (diff_padded new 1 ! p)\<^sup>2
            + (diff_padded new 2 ! p)\<^sup>2)) [0..<length (data new)]) = total_variation new"
    by (simp only: total_variation_def len)
  then show ?thesis
    using assms(2,3,4) by (simp add: dual_gap_def Let_def np_scale_finite)
qed

lemma dual_gap_error:
  "dual_gap im new gp w = Inl e \<Longrightarrow>
     e = IndexError \<or> e = ValueError ''could not broadcast input array''"
  by (auto simp: dual_gap_def Let_def split: if_splits)

lemma ex_total_variation:
  "total_variation \<lparr>shape = [2, 2], data = [1, 7, 0, 1]\<rparr> = sqrt 37 + 7"
  by (simp add: total_variation_def ex_gradient_second_negated point_norm_def Let_def
      upt_0_2 upt_0_4)


text \<open>
  Claim C4.  For an original image of rank 2 or 3 with nonzero norm, a candidate of the
  same rank and any gap field and weight, \<open>dual_gap\<close> returns
  \<open>0.5 / ||original||^2 * (||gap_field||^2 + 2 * weight * TV(candidate) - ||original||^2
  + ||candidate||^2)\<close>, with \<open>TV\<close> the total variation built from \<open>gradient\<close>.
\<close>

theorem dual_gap_formula:
  assumes "valid_array new" and "ndim new = ndim im"
    and "ndim im = 2 \<or> ndim im = 3" and "sq_norm im \<noteq> 0"
  shows "dual_gap im new gap_field w =
     Inr (Fin (0.5 / sq_norm im *
       (sq_norm gap_field + 2 * w * total_variation new - sq_norm im + sq_norm new)))"
  using assms(3)
proof
  assume im2: "ndim im = 2"
  then have "ndim new = 2" using assms(2) by simp
  then show ?thesis
    using assms(1) im2 assms(4) by (intro dual_gap_rank_2)
next
  assume im3: "ndim im = 3"
  then have "ndim new = 3" using assms(2) by simp
  then show ?thesis
    using assms(1) im3 assms(4) by (intro dual_gap_rank_3)
qed

theorem dual_gap_formula_witness:
  "valid_array \<lparr>shape = [2, 2], data = [1, 7, 0, 1 :: real]\<rparr> \<and>
   ndim \<lparr>shape = [2, 2], data = [1, 7, 0, 1 :: real]\<rparr>
     = ndim \<lparr>shape = [2, 2], data = [0, 9, 0, 0 :: real]\<rparr> \<and>
   ndim \<lparr>shape = [2, 2], data = [0, 9, 0, 0 :: real]\<rparr> = 2 \<and>
   sq_norm \<lparr>shape = [2, 2], data = [0, 9, 0, 0]\<rparr> = 81 \<and>
   dual_gap \<lparr>shape = [2, 2], data = [0, 9, 0, 0]\<rparr> \<lparr>shape = [2, 2], data = [1, 7, 0, 1]\<rparr>
     \<lparr>shape = [2, 2], data = [- 1, 2, 0, - 1]\<rparr> 1
     = Inr (Fin (0.5 / 81 * (6 + 2 * 1 * (sqrt 37 + 7) - 81 + 51)))"
proof -
  let ?im = "\<lparr>shape = [2, 2], data = [0, 9, 0, 0 :: real]\<rparr>"
  let ?new = "\<lparr>shape = [2, 2], data = [1, 7, 0, 1 :: real]\<rparr>"
  let ?gp = "\<lparr>shape = [2, 2], data = [- 1, 2, 0, - 1 :: real]\<rparr>"
  have v: "valid_array ?new" by (simp add: valid_array_def)
  have n: "ndim ?new = ndim ?im" and n2: "ndim ?im = 2" by (simp_all add: ndim_def)
  have im: "sq_norm ?im = 81" and new: "sq_norm ?new = 51" and gp: "sq_norm ?gp = 6"
    by (simp_all add: sq_norm_def nd_sum_def nd_map_def)
  then have nz: "sq_norm ?im \<noteq> 0" by simp
  from dual_gap_formula [OF v n disjI1 [OF n2] nz, of ?gp 1]
  have "dual_gap ?im ?new ?gp 1 = Inr (Fin (0.5 / 81 * (6 + 2 * 1 * (sqrt 37 + 7) - 81 + 51)))"
    unfolding im new gp ex_total_variation .
  then show ?thesis
    using v n n2 im by (intro conjI)
qed

section \<open>The divergence is the negative adjoint of the gradient\<close>

lemma mod_Suc_step:
  assumes "Suc (u mod n) < (n::nat)"
  shows "Suc u mod n = Suc (u mod n)"
  using assms by (simp add: mod_Suc)

lemma mod_pred_step:
  assumes "1 \<le> u mod (n::nat)"
  shows "1 \<le> u \<and> (u - 1) mod n = u mod n - 1"
proof -
  from assms obtain u' where u: "u = Suc u'"
    by (cases u) auto
  have "Suc u' mod n \<noteq> 0"
    using assms u by simp
  then have "Suc u' mod n = Suc (u' mod n)"
    by (simp add: mod_Suc split: if_splits)
  then show ?thesis
    using u by simp
qed

lemma axis_index_forward:
  assumes "k < length s" and "p < prod_list s" and "axis_index s k p < s ! k - 1"
  shows "p + stride s k < prod_list s \<and> axis_index s k (p + stride s k) = Suc (axis_index s k p)"
proof -
  let ?st = "stride s k"
  let ?n = "s ! k"
  let ?A = "prod_list (take k s)"
  let ?u = "p div ?st"
  have P: "prod_list s = (?A * ?n) * ?st"
    using prod_list_split [OF assms(1)] by (simp add: mult.assoc)
  have st: "0 < ?st"
    using assms(2) P by (cases "?st = 0") simp_all
  have u: "?u < ?A * ?n"
    using assms(2) st unfolding P by (simp only: div_less_iff_less_mult)
  have S: "Suc (?u mod ?n) < ?n"
    using assms(3) by (simp add: axis_index_def)
  have step: "(p + ?st) div ?st = Suc ?u"
    using st by simp
  have m: "Suc ?u mod ?n = Suc (?u mod ?n)"
    using S by (rule mod_Suc_step)
  have "Suc ?u \<noteq> ?A * ?n"
  proof
    assume "Suc ?u = ?A * ?n"
    then have "Suc ?u mod ?n = 0" by simp
    then show False using m by simp
  qed
  then have "Suc ?u < ?A * ?n"
    using u by simp
  then have "(p + ?st) div ?st < ?A * ?n"
    by (simp only: step)
  then have "p + ?st < (?A * ?n) * ?st"
    using st by (simp only: div_less_iff_less_mult)
  then show ?thesis
    using step m by (simp add: P axis_index_def)
qed

lemma axis_index_backward:
  assumes "k < length s" and "p < prod_list s" and "1 \<le> axis_index s k p"
  shows "stride s k \<le> p \<and> axis_index s k (p - stride s k) = axis_index s k p - 1"
proof -
  let ?st = "stride s k"
  let ?n = "s ! k"
  let ?u = "p div ?st"
  have P: "prod_list s = prod_list (take k s) * (?n * ?st)"
    using assms(1) by (rule prod_list_split)
  have st: "0 < ?st"
    using assms(2) P by (cases "?st = 0") simp_all
  have "1 \<le> ?u mod ?n"
    using assms(3) by (simp add: axis_index_def)
  then have u: "1 \<le> ?u" and m: "(?u - 1) mod ?n = ?u mod ?n - 1"
    using mod_pred_step by blast+
  have le: "?st \<le> p"
    using u st by (simp add: Suc_le_eq div_greater_zero_iff)
  have "?u = Suc ((p - ?st) div ?st)"
    using st le by (rule le_div_geq)
  then have "(p - ?st) div ?st = ?u - 1"
    by simp
  then show ?thesis
    using le m by (simp add: axis_index_def)
qed

lemma axis_index_less:
  assumes "k < length s" and "p < prod_list s"
  shows "axis_index s k p < s ! k"
proof -
  have "prod_list s = prod_list (take k s) * (s ! k * stride s k)"
    using assms(1) by (rule prod_list_split)
  then have "0 < s ! k"
    using assms(2) by (cases "s ! k = 0") simp_all
  then show ?thesis
    by (simp add: axis_index_def)
qed

lemma axis_shift_sum:
  fixes f :: "nat \<Rightarrow> nat \<Rightarrow> real"
  assumes "k < length s"
  shows "(\<Sum>p | p < prod_list s \<and> axis_index s k p < s ! k - 1. f (p + stride s k) p)
       = (\<Sum>p | p < prod_list s \<and> 1 \<le> axis_index s k p. f p (p - stride s k))"
proof (rule sum.reindex_bij_witness [where i = "\<lambda>p. p - stride s k" and j = "\<lambda>p. p + stride s k"])
  fix a assume "a \<in> {p. p < prod_list s \<and> axis_index s k p < s ! k - 1}"
  then have a: "a < prod_list s" "axis_index s k a < s ! k - 1" by simp_all
  show "a + stride s k - stride s k = a" by simp
  show "a + stride s k \<in> {p. p < prod_list s \<and> 1 \<le> axis_index s k p}"
    using axis_index_forward [OF assms a] by simp
  show "f (a + stride s k) (a + stride s k - stride s k) = f (a + stride s k) a" by simp
next
  fix b assume "b \<in> {p. p < prod_list s \<and> 1 \<le> axis_index s k p}"
  then have b: "b < prod_list s" "1 \<le> axis_index s k b" by simp_all
  note bk = axis_index_backward [OF assms b]
  show "b - stride s k + stride s k = b"
    using bk by simp
  have "axis_index s k b < s ! k"
    using assms b(1) by (rule axis_index_less)
  then show "b - stride s k \<in> {p. p < prod_list s \<and> axis_index s k p < s ! k - 1}"
    using bk b by auto
qed

lemma axis_adjoint:
  fixes x y :: "nat \<Rightarrow> real"
  assumes "k < length s"
  shows "(\<Sum>p<prod_list s.
            (if axis_index s k p < s ! k - 1 then x (p + stride s k) - x p else 0) * y p)
       = - (\<Sum>p<prod_list s. x p *
            ((if axis_index s k p < s ! k - 1 then y p else 0)
             - (if 1 \<le> axis_index s k p then y (p - stride s k) else 0)))"
proof -
  let ?N = "prod_list s"
  let ?c1 = "\<lambda>p. axis_index s k p < s ! k - 1"
  let ?c2 = "\<lambda>p. 1 \<le> axis_index s k p"
  let ?st = "stride s k"
  have f1: "(\<Sum>p<?N. if ?c1 p then x (p + ?st) * y p else 0)
      = (\<Sum>p | p < ?N \<and> ?c1 p. x (p + ?st) * y p)"
    using sum.inter_filter [of "{..<?N}" "\<lambda>p. x (p + ?st) * y p" ?c1] by simp
  have f2: "(\<Sum>p<?N. if ?c2 p then x p * y (p - ?st) else 0)
      = (\<Sum>p | p < ?N \<and> ?c2 p. x p * y (p - ?st))"
    using sum.inter_filter [of "{..<?N}" "\<lambda>p. x p * y (p - ?st)" ?c2] by simp
  have shift: "(\<Sum>p<?N. if ?c1 p then x (p + ?st) * y p else 0)
      = (\<Sum>p<?N. if ?c2 p then x p * y (p - ?st) else 0)"
    unfolding f1 f2 using axis_shift_sum [OF assms, of "\<lambda>a b. x a * y b"] .
  have "(\<Sum>p<?N. (if ?c1 p then x (p + ?st) - x p else 0) * y p)
      = (\<Sum>p<?N. (if ?c1 p then x (p + ?st) * y p else 0) - (if ?c1 p then x p * y p else 0))"
    by (rule sum.cong) (simp_all add: algebra_simps)
  also have "\<dots> = (\<Sum>p<?N. if ?c1 p then x (p + ?st) * y p else 0)
      - (\<Sum>p<?N. if ?c1 p then x p * y p else 0)"
    by (rule sum_subtractf)
  finally have L: "(\<Sum>p<?N. (if ?c1 p then x (p + ?st) - x p else 0) * y p)
      = (\<Sum>p<?N. if ?c2 p then x p * y (p - ?st) else 0)
      - (\<Sum>p<?N. if ?c1 p then x p * y p else 0)"
    unfolding shift .
  have "(\<Sum>p<?N. x p * ((if ?c1 p then y p else 0) - (if ?c2 p then y (p - ?st) else 0)))
      = (\<Sum>p<?N. (if ?c1 p then x p * y p else 0) - (if ?c2 p then x p * y (p - ?st) else 0))"
    by (rule sum.cong) (simp_all add: algebra_simps)
  also have "\<dots> = (\<Sum>p<?N. if ?c1 p then x p * y p else 0)
      - (\<Sum>p<?N. if ?c2 p then x p * y (p - ?st) else 0)"
    by (rule sum_subtractf)
  finally show ?thesis
    unfolding L by simp
qed

lemma div_axis_nth:
  assumes "d < length (tl (shape y))" and "2 \<le> tl (shape y) ! d"
    and "length res = prod_list (tl (shape y))"
  shows "\<exists>r. div_axis y d res = Inr r \<and> length r = prod_list (tl (shape y)) \<and>
           (\<forall>p<prod_list (tl (shape y)). r ! p = res ! p + div_term y d p)"
proof -
  let ?s = "tl (shape y)"
  let ?N = "prod_list ?s"
  let ?n = "?s ! d"
  let ?g = "\<lambda>p. data y ! (d * ?N + p)"
  let ?res1 = "map (\<lambda>p. if axis_index ?s d p < ?n - 1 then res ! p + ?g p else res ! p) [0..<?N]"
  let ?res2 = "map (\<lambda>p. if 1 \<le> axis_index ?s d p \<and> axis_index ?s d p < ?n - 1
                         then ?res1 ! p - ?g (p - stride ?s d) else ?res1 ! p) [0..<?N]"
  let ?res3 = "map (\<lambda>p. if axis_index ?s d p = ?n - 1
                         then ?res2 ! p - ?g (p - stride ?s d) else ?res2 ! p) [0..<?N]"
  have eq: "div_axis y d res = Inr ?res3"
    using assms(1,2) by (simp add: div_axis_def Let_def)
  have "?res3 ! p = res ! p + div_term y d p" if p: "p < ?N" for p
  proof -
    have ax: "axis_index ?s d p < ?n"
      using assms(1) p by (rule axis_index_less)
    show ?thesis
      using p ax assms(2) by (auto simp: div_term_def Let_def)
  qed
  then show ?thesis
    using eq by simp
qed

lemma div_loop_nth:
  assumes "\<forall>d\<in>set ds. d < length (tl (shape y)) \<and> 2 \<le> tl (shape y) ! d"
    and "length res = prod_list (tl (shape y))"
  shows "\<exists>r. div_loop y ds res = Inr r \<and> length r = prod_list (tl (shape y)) \<and>
           (\<forall>p<prod_list (tl (shape y)).
              r ! p = res ! p + sum_list (map (\<lambda>d. div_term y d p) ds))"
  using assms
proof (induction ds arbitrary: res)
  case Nil
  then show ?case by simp
next
  case (Cons d ds)
  from Cons.prems have d: "d < length (tl (shape y))" "2 \<le> tl (shape y) ! d"
    by simp_all
  from div_axis_nth [OF d Cons.prems(2)] obtain r1 where
    r1: "div_axis y d res = Inr r1" "length r1 = prod_list (tl (shape y))"
      "\<forall>p<prod_list (tl (shape y)). r1 ! p = res ! p + div_term y d p"
    by blast
  from Cons.prems(1) have rest: "\<forall>d\<in>set ds. d < length (tl (shape y)) \<and> 2 \<le> tl (shape y) ! d"
    by simp
  from Cons.IH [OF rest r1(2)] obtain r where
    r: "div_loop y ds r1 = Inr r" "length r = prod_list (tl (shape y))"
      "\<forall>p<prod_list (tl (shape y)). r ! p = r1 ! p + sum_list (map (\<lambda>d. div_term y d p) ds)"
    by blast
  have "div_loop y (d # ds) res = Inr r"
    using r1(1) r(1) by simp
  moreover have "\<forall>p<prod_list (tl (shape y)).
      r ! p = res ! p + sum_list (map (\<lambda>d. div_term y d p) (d # ds))"
    using r1(3) r(3) by simp
  ultimately show ?case
    using r(2) by blast
qed

lemma div_nd_nth:
  assumes "shape y = length s # s" and "\<forall>n\<in>set s. 2 \<le> n"
  shows "\<exists>dv. div_nd y = Inr dv \<and> shape dv = s \<and> length (data dv) = prod_list s \<and>
           (\<forall>p<prod_list s. data dv ! p = (\<Sum>d<length s. div_term y d p))"
proof -
  have tl: "tl (shape y) = s"
    using assms(1) by simp
  have "\<forall>d\<in>set [0..<length s]. d < length (tl (shape y)) \<and> 2 \<le> tl (shape y) ! d"
    using assms(2) by (simp add: tl)
  moreover have "length (replicate (prod_list s) (0::real)) = prod_list (tl (shape y))"
    by (simp add: tl)
  ultimately obtain r where
    r: "div_loop y [0..<length s] (replicate (prod_list s) 0) = Inr r"
      "length r = prod_list (tl (shape y))"
      "\<forall>p<prod_list (tl (shape y)). r ! p = replicate (prod_list s) 0 ! p
          + sum_list (map (\<lambda>d. div_term y d p) [0..<length s])"
    using div_loop_nth by blast
  have "div_nd y = Inr \<lparr>shape = s, data = r\<rparr>"
    using assms(1) r(1) by (simp add: div_nd_def)
  moreover have "r ! p = (\<Sum>d<length s. div_term y d p)" if "p < prod_list s" for p
    using r(3) that
    by (simp add: tl interv_sum_list_conv_sum_set_nat atLeast0LessThan)
  ultimately show ?thesis
    using r(2) by (simp add: tl)
qed

lemma div_axis_error:
  "div_axis g d r = Inl e \<Longrightarrow>
     e = IndexError \<or> e = ValueError ''rollaxis: axis out of range''"
  by (auto simp: div_axis_def Let_def split: if_splits)

lemma div_loop_error:
  "div_loop g ds r = Inl e \<Longrightarrow>
     e = IndexError \<or> e = ValueError ''rollaxis: axis out of range''"
proof (induction ds arbitrary: r)
  case Nil
  then show ?case by simp
next
  case (Cons d ds)
  then show ?case
    by (auto split: sum.splits dest: div_axis_error)
qed

lemma div_nd_error:
  "div_nd g = Inl e \<Longrightarrow>
     e = IndexError \<or> e = ValueError ''rollaxis: axis out of range''"
  by (auto simp: div_nd_def split: list.splits sum.splits dest: div_loop_error)

lemma inner_gradient_div:
  assumes "valid_array x" and "valid_array y" and "shape y = ndim x # shape x"
    and "\<forall>n\<in>set (shape x). 2 \<le> n" and "div_nd y = Inr dv"
  shows "nd_sum (nd_mul (gradient x) y) = - nd_sum (nd_mul x dv)"
proof -
  let ?s = "shape x"
  let ?k = "length ?s"
  let ?N = "prod_list ?s"
  have shy: "shape y = ?k # ?s"
    using assms(3) by (simp add: ndim_def)
  have tl: "tl (shape y) = ?s"
    using shy by simp
  from div_nd_nth [OF shy assms(4)] assms(5)
  have dv: "length (data dv) = ?N"
      "\<forall>p<?N. data dv ! p = (\<Sum>d<?k. div_term y d p)"
    by auto
  have lenx: "length (data x) = ?N"
    using assms(1) by (simp add: valid_array_def)
  have leny: "length (data y) = ?k * ?N"
    using assms(2) shy by (simp add: valid_array_def)
  have leng: "length (data (gradient x)) = ?k * ?N"
    by (simp add: length_gradient ndim_def)
  have "nd_sum (nd_mul (gradient x) y)
      = (\<Sum>q<?k * ?N. data (gradient x) ! q * data y ! q)"
    using sum_list_map2_nth [of "data (gradient x)" "data y" "(*)"] leng leny
    by (simp add: nd_sum_def nd_mul_def nd_map2_def)
  also have "\<dots> = (\<Sum>d<?k. \<Sum>p<?N. data (gradient x) ! (d * ?N + p) * data y ! (d * ?N + p))"
    by (rule block_sum)
  also have "\<dots> = (\<Sum>d<?k. - (\<Sum>p<?N. data x ! p * div_term y d p))"
  proof (rule sum.cong [OF refl])
    fix d assume "d \<in> {..<?k}"
    then have d: "d < ?k" by simp
    have "(\<Sum>p<?N. data (gradient x) ! (d * ?N + p) * data y ! (d * ?N + p))
        = (\<Sum>p<?N. (if axis_index ?s d p < ?s ! d - 1
                      then data x ! (p + stride ?s d) - data x ! p else 0)
                    * data y ! (d * ?N + p))"
      using d by (intro sum.cong refl) (simp add: nth_gradient ndim_def)
    also have "\<dots> = - (\<Sum>p<?N. data x ! p *
            ((if axis_index ?s d p < ?s ! d - 1 then data y ! (d * ?N + p) else 0)
             - (if 1 \<le> axis_index ?s d p then data y ! (d * ?N + (p - stride ?s d)) else 0)))"
      using axis_adjoint [OF d, of "\<lambda>p. data x ! p" "\<lambda>p. data y ! (d * ?N + p)"] .
    also have "\<dots> = - (\<Sum>p<?N. data x ! p * div_term y d p)"
      by (simp add: div_term_def tl Let_def)
    finally show "(\<Sum>p<?N. data (gradient x) ! (d * ?N + p) * data y ! (d * ?N + p))
        = - (\<Sum>p<?N. data x ! p * div_term y d p)" .
  qed
  also have "\<dots> = - (\<Sum>p<?N. \<Sum>d<?k. data x ! p * div_term y d p)"
    unfolding sum_negf by (subst sum.swap) simp
  also have "\<dots> = - (\<Sum>p<?N. data x ! p * data dv ! p)"
    using dv(2) by (simp add: sum_distrib_left)
  also have "\<dots> = - nd_sum (nd_mul x dv)"
    using sum_list_map2_nth [of "data x" "data dv" "(*)"] lenx dv(1)
    by (simp add: nd_sum_def nd_mul_def nd_map2_def)
  finally show ?thesis .
qed

text \<open>
  The gradient and the divergence are negative adjoints of each other: for an image of
  any rank whose axes all have at least two entries and a directional field of the matching
  shape, \<open>div\<close> returns and \<open>sum(gradient(x) * y) = - sum(x * div(y))\<close>.
\<close>

theorem gradient_div_adjoint:
  assumes "valid_array x" and "valid_array y" and "shape y = ndim x # shape x"
    and "\<forall>n\<in>set (shape x). 2 \<le> n"
  shows "\<exists>dv. div_nd y = Inr dv \<and> shape dv = shape x \<and>
           nd_sum (nd_mul (gradient x) y) = - nd_sum (nd_mul x dv)"
proof -
  have "shape y = length (shape x) # shape x"
    using assms(3) by (simp add: ndim_def)
  from div_nd_nth [OF this assms(4)] obtain dv where
    dv: "div_nd y = Inr dv" "shape dv = shape x"
    by blast
  have "nd_sum (nd_mul (gradient x) y) = - nd_sum (nd_mul x dv)"
    using assms dv(1) by (rule inner_gradient_div)
  then show ?thesis
    using dv by blast
qed

theorem gradient_div_adjoint_witness:
  "valid_array \<lparr>shape = [2, 3], data = [1, 2, 4, 8, 16, 32 :: real]\<rparr> \<and>
   valid_array \<lparr>shape = [2, 2, 3], data = [1, 2, 3, 4, 5, 6, 10, 20, 30, 40, 50, 60 :: real]\<rparr> \<and>
   div_nd \<lparr>shape = [2, 2, 3], data = [1, 2, 3, 4, 5, 6, 10, 20, 30, 40, 50, 60]\<rparr>
     = Inr \<lparr>shape = [2, 3], data = [11, 12, - 17, 39, 8, - 53]\<rparr> \<and>
   nd_sum (nd_mul (gradient \<lparr>shape = [2, 3], data = [1, 2, 4, 8, 16, 32]\<rparr>)
      \<lparr>shape = [2, 2, 3], data = [1, 2, 3, 4, 5, 6, 10, 20, 30, 40, 50, 60]\<rparr>)
     = - nd_sum (nd_mul \<lparr>shape = [2, 3], data = [1, 2, 4, 8, 16, 32]\<rparr>
          \<lparr>shape = [2, 3], data = [11, 12, - 17, 39, 8, - 53]\<rparr>) \<and>
   - nd_sum (nd_mul \<lparr>shape = [2, 3], data = [1, 2, 4, 8, 16, 32]\<rparr>
          \<lparr>shape = [2, 3], data = [11, 12, - 17, 39, 8, - 53]\<rparr>) = 1289"
proof -
  let ?x = "\<lparr>shape = [2, 3], data = [1, 2, 4, 8, 16, 32 :: real]\<rparr>"
  let ?y = "\<lparr>shape = [2, 2, 3], data = [1, 2, 3, 4, 5, 6, 10, 20, 30, 40, 50, 60 :: real]\<rparr>"
  let ?dv = "\<lparr>shape = [2, 3], data = [11, 12, - 17, 39, 8, - 53 :: real]\<rparr>"
  have vx: "valid_array ?x" and vy: "valid_array ?y"
    by (simp_all add: valid_array_def)
  have sh: "shape ?y = ndim ?x # shape ?x"
    by (simp add: ndim_def)
  have ge: "\<forall>n\<in>set (shape ?x). 2 \<le> n"
    by simp
  from gradient_div_adjoint [OF vx vy sh ge] ex_div_2_3
  have "nd_sum (nd_mul (gradient ?x) ?y) = - nd_sum (nd_mul ?x ?dv)"
    by auto
  moreover have "- nd_sum (nd_mul ?x ?dv) = 1289"
    by (simp add: nd_sum_def nd_mul_def nd_map2_def)
  ultimately show ?thesis
    using vx vy ex_div_2_3 by (intro conjI)
qed

text \<open>
  Claim C1, on an image with an axis of one entry.  \<open>gradient\<close> of a 1 x 2 image is a
  field of shape (2, 1, 2), but \<open>div\<close> of a field of that shape raises \<open>IndexError\<close> at
  \<open>this_grad[-2]\<close>, so the two sides of the adjointness identity cannot be compared.
\<close>

theorem div_singleton_axis:
  "gradient \<lparr>shape = [1, 2], data = [1, 2 :: real]\<rparr>
     = \<lparr>shape = [2, 1, 2], data = [0, 0, 1, 0]\<rparr> \<and>
   div_nd \<lparr>shape = [2, 1, 2], data = [1, 2, 3, 4]\<rparr> = Inl IndexError"
proof -
  have "gradient \<lparr>shape = [1, 2], data = [1, 2 :: real]\<rparr>
     = \<lparr>shape = [2, 1, 2], data = [0, 0, 1, 0]\<rparr>"
    by (simp add: gradient_def assign_diff_def zeros_def ndim_def Let_def axis_index_def
        stride_def upt_0_2 upt_0_4 replicate_4)
  moreover have "div_nd \<lparr>shape = [2, 1, 2], data = [1, 2, 3, 4]\<rparr> = Inl IndexError"
    by (simp add: div_nd_def div_axis_def Let_def upt_0_2)
  ultimately show ?thesis by (rule conjI)
qed

section \<open>The sign of the dual gap\<close>











section \<open>One run of the solver\<close>

text \<open>
  The first pass of the loop on the image \<open>[[0, 9], [0, 0]]\<close> with weight 1, and the whole
  call when one iteration is allowed and the values are bounded by 0 and 5.
\<close>

lemma fista_loop_no_iteration:
  "n_iter_max A \<le> i \<Longrightarrow> fista_loop A L i st = Inr st"
  by (simp add: fista_loop.simps [of A L i st])

lemma ex_dual_ascent:
  "dual_ascent
     \<lparr>input_img = \<lparr>shape = [2, 2], data = [0, 9, 0, 0]\<rparr>, weight = 1, eps = 1 / 2,
      n_iter_max = 1, check_gap_frequency = 1, val_min = Some 0, val_max = Some 5\<rparr> 9
     \<lparr>grad_im = zeros [2, 2, 2], grad_aux = zeros [2, 2, 2], t = 1,
      negated_output = \<lparr>shape = [2, 2], data = [0, - 9, 0, 0]\<rparr>,
      negated_output_old = Some \<lparr>shape = [2, 2], data = [0, - 9, 0, 0]\<rparr>, gap = None\<rparr>
   = Inr \<lparr>shape = [2, 2, 2], data = [0, 1, 0, 0, - 1, 0, 0, 0]\<rparr>"
  by (simp add: dual_ascent_def ex_gradient nd_scale_def nd_add_def nd_map_def nd_map2_def
      zeros_def replicate_8)

lemma ex_fista_step:
  "fista_step
     \<lparr>input_img = \<lparr>shape = [2, 2], data = [0, 9, 0, 0]\<rparr>, weight = 1, eps = 1 / 2,
      n_iter_max = 1, check_gap_frequency = 1, val_min = Some 0, val_max = Some 5\<rparr> 9 0
     \<lparr>grad_im = zeros [2, 2, 2], grad_aux = zeros [2, 2, 2], t = 1,
      negated_output = \<lparr>shape = [2, 2], data = [0, - 9, 0, 0]\<rparr>,
      negated_output_old = Some \<lparr>shape = [2, 2], data = [0, - 9, 0, 0]\<rparr>, gap = None\<rparr>
   = Inr (False,
     \<lparr>grad_im = \<lparr>shape = [2, 2, 2], data = [0, 1, 0, 0, - 1, 0, 0, 0]\<rparr>,
      grad_aux = \<lparr>shape = [2, 2, 2], data = [0, 1, 0, 0, - 1, 0, 0, 0]\<rparr>,
      t = 1 / 2 * (1 + sqrt 5),
      negated_output = \<lparr>shape = [2, 2], data = [- 1, - 5, 0, - 1]\<rparr>,
      negated_output_old = Some \<lparr>shape = [2, 2], data = [- 1, - 5, 0, - 1]\<rparr>,
      gap = Some \<lparr>shape = [2, 2], data = [- 1, 2, 0, - 1]\<rparr>\<rparr>)"
  unfolding fista_step_def ex_dual_ascent sum.case ex_projector ex_div Let_def
  by (simp add: check_gap_def nd_scale_def nd_sub_def nd_map_def nd_map2_def zeros_def
      replicate_8 bounded_def negated_val_min_def negated_val_max_def np_clip_def np_max_def
      np_true_divide_def)

lemma ex_fista_step_wide:
  "fista_step
     \<lparr>input_img = \<lparr>shape = [2, 2], data = [0, 9, 0, 0]\<rparr>, weight = 1, eps = 1 / 4,
      n_iter_max = 2, check_gap_frequency = 1, val_min = Some 0, val_max = Some 7\<rparr> 9 0
     \<lparr>grad_im = zeros [2, 2, 2], grad_aux = zeros [2, 2, 2], t = 1,
      negated_output = \<lparr>shape = [2, 2], data = [0, - 9, 0, 0]\<rparr>,
      negated_output_old = Some \<lparr>shape = [2, 2], data = [0, - 9, 0, 0]\<rparr>, gap = None\<rparr>
   = Inr (False,
     \<lparr>grad_im = \<lparr>shape = [2, 2, 2], data = [0, 1, 0, 0, - 1, 0, 0, 0]\<rparr>,
      grad_aux = \<lparr>shape = [2, 2, 2], data = [0, 1, 0, 0, - 1, 0, 0, 0]\<rparr>,
      t = 1 / 2 * (1 + sqrt 5),
      negated_output = \<lparr>shape = [2, 2], data = [- 1, - 7, 0, - 1]\<rparr>,
      negated_output_old = Some \<lparr>shape = [2, 2], data = [- 1, - 7, 0, - 1]\<rparr>,
      gap = Some \<lparr>shape = [2, 2], data = [- 1, 2, 0, - 1]\<rparr>\<rparr>)"
proof -
  have asc: "dual_ascent
     \<lparr>input_img = \<lparr>shape = [2, 2], data = [0, 9, 0, 0]\<rparr>, weight = 1, eps = 1 / 4,
      n_iter_max = 2, check_gap_frequency = 1, val_min = Some 0, val_max = Some 7\<rparr> 9
     \<lparr>grad_im = zeros [2, 2, 2], grad_aux = zeros [2, 2, 2], t = 1,
      negated_output = \<lparr>shape = [2, 2], data = [0, - 9, 0, 0]\<rparr>,
      negated_output_old = Some \<lparr>shape = [2, 2], data = [0, - 9, 0, 0]\<rparr>, gap = None\<rparr>
   = Inr \<lparr>shape = [2, 2, 2], data = [0, 1, 0, 0, - 1, 0, 0, 0]\<rparr>"
    by (simp add: dual_ascent_def ex_gradient nd_scale_def nd_add_def nd_map_def nd_map2_def
        zeros_def replicate_8)
  show ?thesis
    unfolding fista_step_def asc sum.case ex_projector ex_div Let_def
    by (simp add: check_gap_def nd_scale_def nd_sub_def nd_map_def nd_map2_def zeros_def
        replicate_8 bounded_def negated_val_min_def negated_val_max_def np_clip_def np_max_def
        np_true_divide_def)
qed

lemma ex_tv_denoise_fista:
  "tv_denoise_fista
     \<lparr>input_img = \<lparr>shape = [2, 2], data = [0, 9, 0, 0]\<rparr>, weight = 1, eps = 1 / 2,
      n_iter_max = 1, check_gap_frequency = 1, val_min = Some 0, val_max = Some 5\<rparr>
   = Inr \<lparr>shape = [2, 2], data = [1, 5, 0, 1]\<rparr>"
proof -
  let ?A = "\<lparr>input_img = \<lparr>shape = [2, 2], data = [0, 9, 0, 0]\<rparr>, weight = 1, eps = 1 / 2,
      n_iter_max = 1, check_gap_frequency = 1, val_min = Some 0, val_max = Some 5\<rparr>"
  let ?st0 = "\<lparr>grad_im = zeros [2, 2, 2], grad_aux = zeros [2, 2, 2], t = 1,
      negated_output = \<lparr>shape = [2, 2], data = [0, - 9, 0, 0]\<rparr>,
      negated_output_old = Some \<lparr>shape = [2, 2], data = [0, - 9, 0, 0]\<rparr>, gap = None\<rparr>"
  let ?st1 = "\<lparr>grad_im = \<lparr>shape = [2, 2, 2], data = [0, 1, 0, 0, - 1, 0, 0, 0]\<rparr>,
      grad_aux = \<lparr>shape = [2, 2, 2], data = [0, 1, 0, 0, - 1, 0, 0, 0]\<rparr>,
      t = 1 / 2 * (1 + sqrt 5),
      negated_output = \<lparr>shape = [2, 2], data = [- 1, - 5, 0, - 1]\<rparr>,
      negated_output_old = Some \<lparr>shape = [2, 2], data = [- 1, - 5, 0, - 1]\<rparr>,
      gap = Some \<lparr>shape = [2, 2], data = [- 1, 2, 0, - 1]\<rparr>\<rparr>"
  have n: "ndim (input_img ?A) = 2"
    by (simp add: ndim_def)
  have "fista_loop ?A 9 (0 + 1) ?st1 = Inr ?st1"
    by (rule fista_loop_no_iteration) simp
  then have loop: "fista_loop ?A 9 0 ?st0 = Inr ?st1"
    by (simp add: fista_loop.simps [of ?A 9 0 ?st0] ex_fista_step)
  have "fista_run ?A 9 = Inr \<lparr>shape = [2, 2], data = [1, 5, 0, 1]\<rparr>"
    unfolding fista_run_def Let_def n
    by (simp add: nd_neg_def nd_map_def bounded_def loop nd_sub_def nd_map2_def
        negated_val_min_def negated_val_max_def np_clip_def)
  then show ?thesis
    by (simp add: tv_denoise_fista_def ndim_def)
qed

section \<open>Errors of the solver\<close>

lemma dual_ascent_error:
  "dual_ascent A L st = Inl e \<Longrightarrow> e = ZeroDivisionError"
  by (auto simp: dual_ascent_def Let_def split: if_splits)

lemma np_max_error:
  "np_max xs = Inl e \<Longrightarrow> e = ValueError ''zero-size array to reduction operation maximum''"
  by (auto simp: np_max_def split: list.splits)

lemma check_gap_error:
  assumes "check_gap A i st = Inl e"
  shows "e \<noteq> ValueError ''Cannot compute TV for images that are not 2D or 3D''"
  using assms
  by (auto simp: check_gap_def split: if_splits option.splits sum.splits
      dest!: dual_gap_error np_max_error)

lemma fista_step_error:
  assumes "fista_step A L i st = Inl e"
  shows "e \<noteq> ValueError ''Cannot compute TV for images that are not 2D or 3D''"
  using assms
  by (auto simp: fista_step_def Let_def split: sum.splits
      dest!: dual_ascent_error projector_on_dual_error div_nd_error check_gap_error)

lemma fista_loop_error:
  "fista_loop A L i st = Inl e \<Longrightarrow>
     e \<noteq> ValueError ''Cannot compute TV for images that are not 2D or 3D''"
proof (induction A L i st rule: fista_loop.induct)
  case (1 A L i st)
  show ?case
  proof (cases "i < n_iter_max A")
    case False
    then show ?thesis using "1.prems" by (simp add: fista_loop.simps [of A L i st])
  next
    case True
    show ?thesis
    proof (cases "fista_step A L i st")
      case (Inl e')
      then show ?thesis
        using True "1.prems" fista_step_error [OF Inl]
        by (simp add: fista_loop.simps [of A L i st])
    next
      case (Inr r)
      obtain brk st' where r: "r = (brk, st')" by (cases r)
      show ?thesis
      proof (cases brk)
        case True
        then show ?thesis
          using \<open>i < n_iter_max A\<close> Inr r "1.prems"
          by (simp add: fista_loop.simps [of A L i st])
      next
        case False
        then have "fista_loop A L (i + 1) st' = Inl e"
          using \<open>i < n_iter_max A\<close> Inr r "1.prems"
          by (simp add: fista_loop.simps [of A L i st])
        then show ?thesis
          using "1.IH" [OF \<open>i < n_iter_max A\<close> Inr r [symmetric] False] by simp
      qed
    qed
  qed
qed

lemma fista_run_error:
  assumes "fista_run A L = Inl e"
  shows "e \<noteq> ValueError ''Cannot compute TV for images that are not 2D or 3D''"
proof -
  let ?st0 = "\<lparr>grad_im = zeros (ndim (input_img A) # shape (input_img A)),
      grad_aux = zeros (ndim (input_img A) # shape (input_img A)), t = 1,
      negated_output = nd_neg (input_img A),
      negated_output_old = (if bounded A then Some (nd_neg (input_img A)) else None),
      gap = None\<rparr>"
  show ?thesis
  proof (cases "fista_loop A L 0 ?st0")
    case (Inl e')
    then have "e' = e"
      using assms by (simp add: fista_run_def Let_def)
    then show ?thesis
      using fista_loop_error [OF Inl] by simp
  next
    case (Inr st)
    then show ?thesis
      using assms by (auto simp: fista_run_def Let_def split: option.splits)
  qed
qed

text \<open>
  Claim C9.  \<open>tv_denoise_fista\<close> raises the error about the dimensionality exactly when
  the rank of the image is neither 2 nor 3, whatever the other arguments are (no later
  statement raises it); for rank 2 the rest of the function runs with
  \<open>lipschitz_constant = 9\<close>, for rank 3 with \<open>lipschitz_constant = 12\<close>.
\<close>

theorem tv_denoise_fista_dimensionality:
  "(tv_denoise_fista A = Inl (ValueError ''Cannot compute TV for images that are not 2D or 3D''))
      = (ndim (input_img A) \<noteq> 2 \<and> ndim (input_img A) \<noteq> 3) \<and>
   (ndim (input_img A) = 2 \<longrightarrow> tv_denoise_fista A = fista_run A 9) \<and>
   (ndim (input_img A) = 3 \<longrightarrow> tv_denoise_fista A = fista_run A 12)"
  using fista_run_error [of A 9] fista_run_error [of A 12]
  by (auto simp: tv_denoise_fista_def)

theorem tv_denoise_fista_dimensionality_witness:
  "ndim (input_img \<lparr>input_img = \<lparr>shape = [3], data = [1, 2, 3]\<rparr>, weight = 50,
      eps = 5 / 100000, n_iter_max = 200, check_gap_frequency = 3, val_min = None,
      val_max = None\<rparr>) = 1 \<and>
   tv_denoise_fista \<lparr>input_img = \<lparr>shape = [3], data = [1, 2, 3]\<rparr>, weight = 50,
      eps = 5 / 100000, n_iter_max = 200, check_gap_frequency = 3, val_min = None,
      val_max = None\<rparr>
     = Inl (ValueError ''Cannot compute TV for images that are not 2D or 3D'') \<and>
   ndim (input_img \<lparr>input_img = \<lparr>shape = [2, 2], data = [0, 9, 0, 0]\<rparr>, weight = 1,
      eps = 1 / 2, n_iter_max = 1, check_gap_frequency = 1, val_min = Some 0,
      val_max = Some 5\<rparr>) = 2 \<and>
   tv_denoise_fista \<lparr>input_img = \<lparr>shape = [2, 2], data = [0, 9, 0, 0]\<rparr>, weight = 1,
      eps = 1 / 2, n_iter_max = 1, check_gap_frequency = 1, val_min = Some 0,
      val_max = Some 5\<rparr>
     = fista_run \<lparr>input_img = \<lparr>shape = [2, 2], data = [0, 9, 0, 0]\<rparr>, weight = 1,
      eps = 1 / 2, n_iter_max = 1, check_gap_frequency = 1, val_min = Some 0,
      val_max = Some 5\<rparr> 9"
proof -
  let ?A1 = "\<lparr>input_img = \<lparr>shape = [3], data = [1, 2, 3]\<rparr>, weight = 50,
      eps = 5 / 100000, n_iter_max = 200, check_gap_frequency = 3, val_min = None,
      val_max = None\<rparr>"
  let ?A2 = "\<lparr>input_img = \<lparr>shape = [2, 2], data = [0, 9, 0, 0]\<rparr>, weight = 1,
      eps = 1 / 2, n_iter_max = 1, check_gap_frequency = 1, val_min = Some 0,
      val_max = Some 5\<rparr>"
  have n1: "ndim (input_img ?A1) = 1" and n2: "ndim (input_img ?A2) = 2"
    by (simp_all add: ndim_def)
  from tv_denoise_fista_dimensionality [of ?A1] n1
  have "tv_denoise_fista ?A1
     = Inl (ValueError ''Cannot compute TV for images that are not 2D or 3D'')"
    by simp
  moreover from tv_denoise_fista_dimensionality [of ?A2] n2
  have "tv_denoise_fista ?A2 = fista_run ?A2 9"
    by simp
  ultimately show ?thesis
    using n1 n2 by simp
qed

lemma fista_run_no_iteration:
  assumes "n_iter_max A \<le> 0"
  shows "fista_run A L = Inl UnboundLocalError"
  by (simp add: fista_run_def Let_def fista_loop_no_iteration [OF assms])

text \<open>
  Claim C8, at \<open>n_iter_max = 0\<close>: the loop body never runs, \<open>gap\<close> is never assigned,
  and line 206 (\<open>output = input_img - gap\<close>) raises \<open>UnboundLocalError\<close> instead of
  returning an estimate.
\<close>

theorem tv_denoise_fista_no_iteration:
  "tv_denoise_fista
     \<lparr>input_img = \<lparr>shape = [2, 2], data = [1, 2, 3, 4]\<rparr>, weight = 50, eps = 5 / 100000,
      n_iter_max = 0, check_gap_frequency = 3, val_min = None, val_max = None\<rparr>
   = Inl UnboundLocalError"
  by (simp add: tv_denoise_fista_def ndim_def fista_run_no_iteration)

section \<open>The bounds on the values\<close>








section \<open>The step on the dual\<close>

lemma check_gap_preserves:
  assumes "check_gap A i st = Inr (brk, st')"
  shows "grad_im st' = grad_im st \<and> grad_aux st' = grad_aux st \<and> t st' = t st \<and>
         negated_output st' = negated_output st \<and> gap st' = gap st"
  using assms
  by (auto simp: check_gap_def split: if_splits option.splits sum.splits)

text \<open>
  Claim C2, as the code has it.  In every pass of the loop body that completes, the field
  handed to the projection is \<open>grad_aux + (1 / (lipschitz_constant * weight)) *
  gradient(negated_output)\<close>: the gradient is taken of the loop variable
  \<open>negated_output\<close> itself, not of its negation.  At the end of the pass \<open>negated_output\<close>
  is \<open>gap - input_img\<close>, clipped when a bound is given.
\<close>

theorem fista_step_dual_update:
  assumes "fista_step A L i st = Inr (brk, st')"
  shows "of_int L * weight A \<noteq> 0 \<and>
     dual_ascent A L st = Inr (nd_add (grad_aux st)
        (nd_scale (1 / (of_int L * weight A)) (gradient (negated_output st)))) \<and>
     projector_on_dual (nd_add (grad_aux st)
        (nd_scale (1 / (of_int L * weight A)) (gradient (negated_output st))))
       = Inr (grad_im st') \<and>
     (\<exists>gp. gap st' = Some gp \<and>
        negated_output st' =
          (if bounded A
           then nd_map (np_clip (negated_val_max A) (negated_val_min A))
                  (nd_sub gp (input_img A))
           else nd_sub gp (input_img A)))"
proof -
  from assms obtain aux where aux: "dual_ascent A L st = Inr aux"
    by (auto simp: fista_step_def split: sum.splits)
  then have nz: "of_int L * weight A \<noteq> 0"
    by (auto simp: dual_ascent_def Let_def split: if_splits)
  then have aux_eq: "aux = nd_add (grad_aux st)
        (nd_scale (1 / (of_int L * weight A)) (gradient (negated_output st)))"
    using aux by (simp add: dual_ascent_def Let_def)
  from assms aux obtain grad_tmp where tmp: "projector_on_dual aux = Inr grad_tmp"
    by (auto simp: fista_step_def split: sum.splits)
  from assms aux tmp obtain dv where dv: "div_nd grad_tmp = Inr dv"
    by (auto simp: fista_step_def Let_def split: sum.splits)
  define neg where "neg = (if bounded A
      then nd_map (np_clip (negated_val_max A) (negated_val_min A))
             (nd_sub (nd_scale (weight A) dv) (input_img A))
      else nd_sub (nd_scale (weight A) dv) (input_img A))"
  define mid where "mid = \<lparr>grad_im = grad_tmp,
      grad_aux = nd_sub (nd_scale (1 + (t st - 1) / (1 / 2 * (1 + sqrt (1 + 4 * (t st)\<^sup>2)))) grad_tmp)
                   (nd_scale ((t st - 1) / (1 / 2 * (1 + sqrt (1 + 4 * (t st)\<^sup>2)))) (grad_im st)),
      t = 1 / 2 * (1 + sqrt (1 + 4 * (t st)\<^sup>2)),
      negated_output = neg, negated_output_old = negated_output_old st,
      gap = Some (nd_scale (weight A) dv)\<rparr>"
  have "check_gap A i mid = Inr (brk, st')"
    using assms aux tmp dv by (simp add: fista_step_def Let_def mid_def neg_def)
  from check_gap_preserves [OF this]
  have "grad_im st' = grad_tmp" and "gap st' = Some (nd_scale (weight A) dv)"
    and "negated_output st' = neg"
    by (simp_all add: mid_def)
  then show ?thesis
    using nz aux aux_eq tmp by (auto simp: neg_def)
qed

theorem fista_step_dual_update_witness:
  "fista_step
     \<lparr>input_img = \<lparr>shape = [2, 2], data = [0, 9, 0, 0]\<rparr>, weight = 1, eps = 1 / 2,
      n_iter_max = 1, check_gap_frequency = 1, val_min = Some 0, val_max = Some 5\<rparr> 9 0
     \<lparr>grad_im = zeros [2, 2, 2], grad_aux = zeros [2, 2, 2], t = 1,
      negated_output = \<lparr>shape = [2, 2], data = [0, - 9, 0, 0]\<rparr>,
      negated_output_old = Some \<lparr>shape = [2, 2], data = [0, - 9, 0, 0]\<rparr>, gap = None\<rparr>
   = Inr (False,
     \<lparr>grad_im = \<lparr>shape = [2, 2, 2], data = [0, 1, 0, 0, - 1, 0, 0, 0]\<rparr>,
      grad_aux = \<lparr>shape = [2, 2, 2], data = [0, 1, 0, 0, - 1, 0, 0, 0]\<rparr>,
      t = 1 / 2 * (1 + sqrt 5),
      negated_output = \<lparr>shape = [2, 2], data = [- 1, - 5, 0, - 1]\<rparr>,
      negated_output_old = Some \<lparr>shape = [2, 2], data = [- 1, - 5, 0, - 1]\<rparr>,
      gap = Some \<lparr>shape = [2, 2], data = [- 1, 2, 0, - 1]\<rparr>\<rparr>) \<and>
   projector_on_dual (nd_add (zeros [2, 2, 2])
      (nd_scale (1 / (of_int 9 * 1)) (gradient \<lparr>shape = [2, 2], data = [0, - 9, 0, 0]\<rparr>)))
     = Inr \<lparr>shape = [2, 2, 2], data = [0, 1, 0, 0, - 1, 0, 0, 0]\<rparr>"
  using fista_step_dual_update [OF ex_fista_step] ex_fista_step
  by simp

text \<open>
  Claim C2 as stated fails.  After the first pass of a run the state has
  \<open>negated_output = gap - input_img\<close>; in the second pass the code adds
  \<open>gradient(gap - input_img) / 9\<close> to \<open>grad_aux\<close>, which differs from
  \<open>grad_aux + gradient(-(gap - input_img)) / 9\<close>.
\<close>

theorem dual_ascent_negation_counterexample:
  "fista_step
     \<lparr>input_img = \<lparr>shape = [2, 2], data = [0, 9, 0, 0]\<rparr>, weight = 1, eps = 1 / 4,
      n_iter_max = 2, check_gap_frequency = 1, val_min = Some 0, val_max = Some 7\<rparr> 9 0
     \<lparr>grad_im = zeros [2, 2, 2], grad_aux = zeros [2, 2, 2], t = 1,
      negated_output = \<lparr>shape = [2, 2], data = [0, - 9, 0, 0]\<rparr>,
      negated_output_old = Some \<lparr>shape = [2, 2], data = [0, - 9, 0, 0]\<rparr>, gap = None\<rparr>
   = Inr (False,
     \<lparr>grad_im = \<lparr>shape = [2, 2, 2], data = [0, 1, 0, 0, - 1, 0, 0, 0]\<rparr>,
      grad_aux = \<lparr>shape = [2, 2, 2], data = [0, 1, 0, 0, - 1, 0, 0, 0]\<rparr>,
      t = 1 / 2 * (1 + sqrt 5),
      negated_output = \<lparr>shape = [2, 2], data = [- 1, - 7, 0, - 1]\<rparr>,
      negated_output_old = Some \<lparr>shape = [2, 2], data = [- 1, - 7, 0, - 1]\<rparr>,
      gap = Some \<lparr>shape = [2, 2], data = [- 1, 2, 0, - 1]\<rparr>\<rparr>) \<and>
   nd_sub \<lparr>shape = [2, 2], data = [- 1, 2, 0, - 1]\<rparr> \<lparr>shape = [2, 2], data = [0, 9, 0, 0]\<rparr>
     = \<lparr>shape = [2, 2], data = [- 1, - 7, 0, - 1]\<rparr> \<and>
   dual_ascent
     \<lparr>input_img = \<lparr>shape = [2, 2], data = [0, 9, 0, 0]\<rparr>, weight = 1, eps = 1 / 4,
      n_iter_max = 2, check_gap_frequency = 1, val_min = Some 0, val_max = Some 7\<rparr> 9
     \<lparr>grad_im = \<lparr>shape = [2, 2, 2], data = [0, 1, 0, 0, - 1, 0, 0, 0]\<rparr>,
      grad_aux = \<lparr>shape = [2, 2, 2], data = [0, 1, 0, 0, - 1, 0, 0, 0]\<rparr>,
      t = 1 / 2 * (1 + sqrt 5),
      negated_output = \<lparr>shape = [2, 2], data = [- 1, - 7, 0, - 1]\<rparr>,
      negated_output_old = Some \<lparr>shape = [2, 2], data = [- 1, - 7, 0, - 1]\<rparr>,
      gap = Some \<lparr>shape = [2, 2], data = [- 1, 2, 0, - 1]\<rparr>\<rparr>
     = Inr \<lparr>shape = [2, 2, 2], data = [1 / 9, 5 / 3, 0, 0, - 5 / 3, 0, - 1 / 9, 0]\<rparr> \<and>
   nd_add \<lparr>shape = [2, 2, 2], data = [0, 1, 0, 0, - 1, 0, 0, 0]\<rparr>
     (nd_scale (1 / (of_int 9 * 1))
        (gradient (nd_neg (nd_sub \<lparr>shape = [2, 2], data = [- 1, 2, 0, - 1]\<rparr>
                                  \<lparr>shape = [2, 2], data = [0, 9, 0, 0]\<rparr>))))
     = \<lparr>shape = [2, 2, 2], data = [- 1 / 9, 1 / 3, 0, 0, - 1 / 3, 0, 1 / 9, 0]\<rparr>"
proof -
  have sub: "nd_sub \<lparr>shape = [2, 2], data = [- 1, 2, 0, - 1]\<rparr>
      \<lparr>shape = [2, 2], data = [0, 9, 0, 0]\<rparr> = \<lparr>shape = [2, 2], data = [- 1, - 7, 0, - 1]\<rparr>"
    by (simp add: nd_sub_def nd_map2_def)
  have neg: "nd_neg \<lparr>shape = [2, 2], data = [- 1, - 7, 0, - 1]\<rparr>
      = \<lparr>shape = [2, 2], data = [1, 7, 0, 1]\<rparr>"
    by (simp add: nd_neg_def nd_map_def)
  have code: "dual_ascent
     \<lparr>input_img = \<lparr>shape = [2, 2], data = [0, 9, 0, 0]\<rparr>, weight = 1, eps = 1 / 4,
      n_iter_max = 2, check_gap_frequency = 1, val_min = Some 0, val_max = Some 7\<rparr> 9
     \<lparr>grad_im = \<lparr>shape = [2, 2, 2], data = [0, 1, 0, 0, - 1, 0, 0, 0]\<rparr>,
      grad_aux = \<lparr>shape = [2, 2, 2], data = [0, 1, 0, 0, - 1, 0, 0, 0]\<rparr>,
      t = 1 / 2 * (1 + sqrt 5),
      negated_output = \<lparr>shape = [2, 2], data = [- 1, - 7, 0, - 1]\<rparr>,
      negated_output_old = Some \<lparr>shape = [2, 2], data = [- 1, - 7, 0, - 1]\<rparr>,
      gap = Some \<lparr>shape = [2, 2], data = [- 1, 2, 0, - 1]\<rparr>\<rparr>
     = Inr \<lparr>shape = [2, 2, 2], data = [1 / 9, 5 / 3, 0, 0, - 5 / 3, 0, - 1 / 9, 0]\<rparr>"
    by (simp add: dual_ascent_def ex_gradient_second nd_scale_def nd_add_def nd_map_def
        nd_map2_def)
  have claim: "nd_add \<lparr>shape = [2, 2, 2], data = [0, 1, 0, 0, - 1, 0, 0, 0]\<rparr>
     (nd_scale (1 / (of_int 9 * 1))
        (gradient (nd_neg (nd_sub \<lparr>shape = [2, 2], data = [- 1, 2, 0, - 1]\<rparr>
                                  \<lparr>shape = [2, 2], data = [0, 9, 0, 0]\<rparr>))))
     = \<lparr>shape = [2, 2, 2], data = [- 1 / 9, 1 / 3, 0, 0, - 1 / 3, 0, 1 / 9, 0]\<rparr>"
    unfolding sub neg ex_gradient_second_negated
    by (simp add: nd_scale_def nd_add_def nd_map_def nd_map2_def)
  show ?thesis
    using ex_fista_step_wide sub code claim by (intro conjI)
qed

section \<open>The solver returns\<close>

lemma prod_list_ge_1:
  "\<forall>n\<in>set s. 2 \<le> n \<Longrightarrow> 1 \<le> prod_list (s :: nat list)"
  by (induction s) (auto simp: Suc_le_eq)

lemma np_max_nonempty:
  "xs \<noteq> [] \<Longrightarrow> \<exists>m. np_max xs = Inr m"
  by (cases xs) (simp_all add: np_max_def)

lemma check_gap_total:
  assumes "check_gap_frequency A \<noteq> 0"
    and "ndim (input_img A) = 2 \<or> ndim (input_img A) = 3"
    and "shape (negated_output st) = shape (input_img A)"
    and "1 \<le> prod_list (shape (input_img A))"
    and "fista_inv A st" and "gap st \<noteq> None"
  shows "\<exists>brk st'. check_gap A i st = Inr (brk, st') \<and> fista_inv A st' \<and> gap st' \<noteq> None"
proof (cases "i mod check_gap_frequency A = 0")
  case False
  then show ?thesis
    using assms(1,5,6) by (auto simp: check_gap_def)
next
  case True
  show ?thesis
  proof (cases "bounded A")
    case False
    then have nb: "val_min A = None \<and> val_max A = None"
      by (simp add: bounded_def)
    from assms(6) obtain gp where gp: "gap st = Some gp" by auto
    have nd: "ndim (nd_neg (negated_output st)) = ndim (input_img A)"
      using assms(3) by (simp add: ndim_def nd_neg_def nd_map_def)
    then obtain dgap where
      "dual_gap (input_img A) (nd_neg (negated_output st)) gp (weight A) = Inr dgap"
      using assms(2) by (auto simp: dual_gap_def Let_def)
    then show ?thesis
      using True assms(1,5) nb gp by (auto simp: check_gap_def)
  next
    case True
    then have b: "\<not> (val_min A = None \<and> val_max A = None)"
      by (simp add: bounded_def)
    from assms(5) True obtain old where
      old: "negated_output_old st = Some old"
        "length (data old) = prod_list (shape (input_img A))"
      by (auto simp: fista_inv_def Let_def split: option.splits)
    have len: "length (data (negated_output st)) = prod_list (shape (input_img A))"
      using assms(5) by (simp add: fista_inv_def Let_def)
    have "data (nd_map abs (nd_sub old (negated_output st))) \<noteq> []"
      using old(2) len assms(4) by (auto simp: nd_map_def nd_sub_def nd_map2_def)
    then obtain diff where
      d: "np_max (data (nd_map abs (nd_sub old (negated_output st)))) = Inr diff"
      using np_max_nonempty by blast
    have "data (nd_map abs (negated_output st)) \<noteq> []"
      using len assms(4) by (auto simp: nd_map_def)
    then obtain m where m: "np_max (data (nd_map abs (negated_output st))) = Inr m"
      using np_max_nonempty by blast
    show ?thesis
      using \<open>i mod check_gap_frequency A = 0\<close> assms(1,5,6) b old d m len True
      by (auto simp: check_gap_def fista_inv_def Let_def)
  qed
qed

lemma fista_step_total:
  assumes "valid_array (input_img A)"
    and "ndim (input_img A) = 2 \<or> ndim (input_img A) = 3"
    and "\<forall>n\<in>set (shape (input_img A)). 2 \<le> n"
    and "of_int L * weight A \<noteq> 0" and "check_gap_frequency A \<noteq> 0"
    and "fista_inv A st"
  shows "\<exists>brk st'. fista_step A L i st = Inr (brk, st') \<and> fista_inv A st' \<and> gap st' \<noteq> None"
proof -
  let ?s = "shape (input_img A)"
  let ?N = "prod_list ?s"
  define aux where "aux = nd_add (grad_aux st)
      (nd_scale (1 / (of_int L * weight A)) (gradient (negated_output st)))"
  have asc: "dual_ascent A L st = Inr aux"
    using assms(4) by (simp add: dual_ascent_def Let_def aux_def)
  have shaux: "shape aux = length ?s # ?s"
    using assms(6) by (simp add: aux_def nd_add_def nd_map2_def fista_inv_def Let_def)
  have "?s \<noteq> []"
    using assms(2) by (auto simp: ndim_def)
  then have "2 \<le> length (shape aux)"
    by (cases ?s) (simp_all add: shaux)
  then obtain grad_tmp where tmp: "projector_on_dual aux = Inr grad_tmp"
    using projector_on_dual_rank2 by blast
  have shtmp: "shape grad_tmp = length ?s # ?s"
    using projector_on_dual_shape [OF tmp] shaux by simp
  from div_nd_nth [OF shtmp assms(3)] obtain dv where
    dv: "div_nd grad_tmp = Inr dv" "shape dv = ?s" "length (data dv) = ?N"
    by blast
  define gap' where "gap' = nd_scale (weight A) dv"
  define neg where "neg = (if bounded A
      then nd_map (np_clip (negated_val_max A) (negated_val_min A)) (nd_sub gap' (input_img A))
      else nd_sub gap' (input_img A))"
  define mid where "mid = \<lparr>grad_im = grad_tmp,
      grad_aux = nd_sub (nd_scale (1 + (t st - 1) / (1 / 2 * (1 + sqrt (1 + 4 * (t st)\<^sup>2)))) grad_tmp)
                   (nd_scale ((t st - 1) / (1 / 2 * (1 + sqrt (1 + 4 * (t st)\<^sup>2)))) (grad_im st)),
      t = 1 / 2 * (1 + sqrt (1 + 4 * (t st)\<^sup>2)),
      negated_output = neg, negated_output_old = negated_output_old st,
      gap = Some gap'\<rparr>"
  have step: "fista_step A L i st = check_gap A i mid"
    by (simp add: fista_step_def asc tmp dv(1) Let_def mid_def neg_def gap'_def)
  have lenim: "length (data (input_img A)) = ?N"
    using assms(1) by (simp add: valid_array_def)
  have lengap: "length (data gap') = ?N" and shgap: "shape gap' = ?s"
    using dv by (simp_all add: gap'_def nd_scale_def nd_map_def)
  have lenneg: "length (data neg) = ?N" and shneg: "shape neg = ?s"
    using lengap shgap lenim by (simp_all add: neg_def nd_sub_def nd_map_def nd_map2_def)
  have inv_mid: "fista_inv A mid"
    using assms(6) shtmp lenneg lengap
    by (auto simp: fista_inv_def Let_def mid_def nd_sub_def nd_scale_def nd_map_def nd_map2_def
        split: option.splits)
  have "shape (negated_output mid) = ?s" and "gap mid \<noteq> None"
    using shneg by (simp_all add: mid_def)
  moreover have "1 \<le> ?N"
    using assms(3) by (rule prod_list_ge_1)
  ultimately show ?thesis
    unfolding step using check_gap_total [OF assms(5) assms(2) _ _ inv_mid] by blast
qed

lemma fista_loop_total:
  "valid_array (input_img A) \<Longrightarrow>
   ndim (input_img A) = 2 \<or> ndim (input_img A) = 3 \<Longrightarrow>
   \<forall>n\<in>set (shape (input_img A)). 2 \<le> n \<Longrightarrow>
   of_int L * weight A \<noteq> 0 \<Longrightarrow> check_gap_frequency A \<noteq> 0 \<Longrightarrow>
   fista_inv A st \<Longrightarrow> i < n_iter_max A \<or> gap st \<noteq> None \<Longrightarrow>
   \<exists>st'. fista_loop A L i st = Inr st' \<and> fista_inv A st' \<and> gap st' \<noteq> None"
proof (induction A L i st rule: fista_loop.induct)
  case (1 A L i st)
  show ?case
  proof (cases "i < n_iter_max A")
    case False
    then show ?thesis
      using "1.prems"(6,7) by (simp add: fista_loop.simps [of A L i st])
  next
    case True
    from fista_step_total [OF "1.prems"(1-6), of i] obtain brk st1 where
      st1: "fista_step A L i st = Inr (brk, st1)" "fista_inv A st1" "gap st1 \<noteq> None"
      by blast
    show ?thesis
    proof (cases brk)
      case True
      then show ?thesis
        using \<open>i < n_iter_max A\<close> st1 by (simp add: fista_loop.simps [of A L i st])
    next
      case False
      have "\<exists>st'. fista_loop A L (i + 1) st1 = Inr st' \<and> fista_inv A st' \<and> gap st' \<noteq> None"
        using "1.IH" [OF True st1(1) refl False "1.prems"(1-5) st1(2)] st1(3) by simp
      then show ?thesis
        using True False st1(1) by (simp add: fista_loop.simps [of A L i st])
    qed
  qed
qed

lemma fista_run_total:
  assumes "valid_array (input_img A)"
    and "ndim (input_img A) = 2 \<or> ndim (input_img A) = 3"
    and "\<forall>n\<in>set (shape (input_img A)). 2 \<le> n"
    and "of_int L * weight A \<noteq> 0" and "check_gap_frequency A \<noteq> 0"
    and "1 \<le> n_iter_max A"
  shows "\<exists>out. fista_run A L = Inr out \<and> shape out = shape (input_img A) \<and> valid_array out"
proof -
  let ?s = "shape (input_img A)"
  let ?st0 = "\<lparr>grad_im = zeros (ndim (input_img A) # ?s),
      grad_aux = zeros (ndim (input_img A) # ?s), t = 1,
      negated_output = nd_neg (input_img A),
      negated_output_old = (if bounded A then Some (nd_neg (input_img A)) else None),
      gap = None\<rparr>"
  have lenim: "length (data (input_img A)) = prod_list ?s"
    using assms(1) by (simp add: valid_array_def)
  have inv0: "fista_inv A ?st0"
    using lenim by (simp add: fista_inv_def Let_def zeros_def ndim_def nd_neg_def nd_map_def)
  have "0 < n_iter_max A \<or> gap ?st0 \<noteq> None"
    using assms(6) by simp
  from fista_loop_total [OF assms(1-5) inv0 this] obtain st' where
    st': "fista_loop A L 0 ?st0 = Inr st'" "fista_inv A st'" "gap st' \<noteq> None"
    by blast
  from st'(3) obtain gp where gp: "gap st' = Some gp" by auto
  then have lengp: "length (data gp) = prod_list ?s"
    using st'(2) by (simp add: fista_inv_def Let_def)
  define out where "out = (if bounded A
      then nd_map (np_clip (map_option uminus (negated_val_min A))
                     (map_option uminus (negated_val_max A))) (nd_sub (input_img A) gp)
      else nd_sub (input_img A) gp)"
  have "fista_run A L = Inr out"
    by (simp add: fista_run_def Let_def st'(1) gp out_def)
  moreover have "shape out = ?s" and "length (data out) = prod_list ?s"
    using lenim lengp by (simp_all add: out_def nd_sub_def nd_map_def nd_map2_def)
  ultimately show ?thesis
    by (simp add: valid_array_def)
qed

text \<open>
  With at least one iteration allowed, \<open>tv_denoise_fista\<close> returns an array of the shape of
  its input and raises nothing, for every image of rank 2 or 3 whose axes all have at least
  two entries, every nonzero weight and every nonzero \<open>check_gap_frequency\<close>.
\<close>

theorem tv_denoise_fista_returns:
  assumes "valid_array (input_img A)"
    and "ndim (input_img A) = 2 \<or> ndim (input_img A) = 3"
    and "\<forall>n\<in>set (shape (input_img A)). 2 \<le> n"
    and "weight A \<noteq> 0" and "check_gap_frequency A \<noteq> 0"
    and "1 \<le> n_iter_max A"
  shows "\<exists>out. tv_denoise_fista A = Inr out \<and> shape out = shape (input_img A) \<and>
           valid_array out"
  using assms(2)
proof
  assume n: "ndim (input_img A) = 2"
  have "of_int 9 * weight A \<noteq> 0"
    using assms(4) by simp
  from fista_run_total [OF assms(1-3) this assms(5,6)] show ?thesis
    using n by (simp add: tv_denoise_fista_def)
next
  assume n: "ndim (input_img A) = 3"
  have "of_int 12 * weight A \<noteq> 0"
    using assms(4) by simp
  from fista_run_total [OF assms(1-3) this assms(5,6)] show ?thesis
    using n by (simp add: tv_denoise_fista_def)
qed

theorem tv_denoise_fista_returns_witness:
  "valid_array \<lparr>shape = [2, 2], data = [0, 9, 0, 0 :: real]\<rparr> \<and>
   tv_denoise_fista
     \<lparr>input_img = \<lparr>shape = [2, 2], data = [0, 9, 0, 0]\<rparr>, weight = 1, eps = 1 / 2,
      n_iter_max = 1, check_gap_frequency = 1, val_min = Some 0, val_max = Some 5\<rparr>
     = Inr \<lparr>shape = [2, 2], data = [1, 5, 0, 1]\<rparr> \<and>
   valid_array \<lparr>shape = [2, 2], data = [1, 5, 0, 1 :: real]\<rparr>"
proof -
  let ?A = "\<lparr>input_img = \<lparr>shape = [2, 2], data = [0, 9, 0, 0]\<rparr>, weight = 1, eps = 1 / 2,
      n_iter_max = 1, check_gap_frequency = 1, val_min = Some 0, val_max = Some 5\<rparr>"
  have v: "valid_array (input_img ?A)" by (simp add: valid_array_def)
  have n: "ndim (input_img ?A) = 2" by (simp add: ndim_def)
  have ge: "\<forall>n\<in>set (shape (input_img ?A)). 2 \<le> n" by simp
  have w: "weight ?A \<noteq> 0" and c: "check_gap_frequency ?A \<noteq> 0" and m: "1 \<le> n_iter_max ?A"
    by simp_all
  from tv_denoise_fista_returns [OF v disjI1 [OF n] ge w c m] ex_tv_denoise_fista
  have "valid_array \<lparr>shape = [2, 2], data = [1, 5, 0, 1 :: real]\<rparr>"
    by auto
  then show ?thesis
    using v ex_tv_denoise_fista by simp
qed

end
